theory Spec2Isabelle
  imports Complex_Main "HOL-Library.Multiset"
begin

section \<open>SentinelScore: contact ingest, threat scoring, ranking and suggestion\<close>

text \<open>
  A shallow embedding of \<^verbatim>\<open>src/main.cpp\<close>. The C++ type \<^verbatim>\<open>double\<close> is modelled by
  \<^typ>\<open>real\<close>: arithmetic is exact, and rounding, infinities and NaN are outside the
  model. Where a property depends on rounding, the scoring is taken a second time with
  every operation rounded to binary64 (the definitions ending in \<open>_d\<close>).
  \<^verbatim>\<open>std::string\<close> is \<^typ>\<open>string\<close>, \<^verbatim>\<open>std::vector\<close> is a list,
  \<^verbatim>\<open>std::optional\<close> is \<^typ>\<open>'a option\<close>. Text written to \<^verbatim>\<open>std::cerr\<close> and
  \<^verbatim>\<open>std::cout\<close> is returned as a value.
\<close>

subsection \<open>Domain model\<close>

datatype IFF = Friend | Foe | Unknown

record Contact =
  id_c :: string
  iff :: IFF
  range_km :: real
  closing_mps :: real
  altitude_m :: real
  rcs_m2 :: real

subsection \<open>Utilities\<close>

text \<open>The characters \<^verbatim>\<open>" \t\r\n"\<close> that \<^verbatim>\<open>trim\<close> strips.\<close>

definition is_ws :: "char \<Rightarrow> bool" where
  "is_ws c = (c = CHR '' '' \<or> c = CHR 0x09 \<or> c = CHR 0x0D \<or> c = CHR 0x0A)"

text \<open>
  \<^verbatim>\<open>trim\<close>: \<^verbatim>\<open>b\<close> is the first character that is not white space (none: the result is
  empty), \<^verbatim>\<open>e\<close> the last one, and the result is the substring from \<^verbatim>\<open>b\<close> to \<^verbatim>\<open>e\<close>.
\<close>

definition trim :: "string \<Rightarrow> string" where
  "trim s =
     (case dropWhile is_ws s of
        [] \<Rightarrow> []
      | t \<Rightarrow> rev (dropWhile is_ws (rev t)))"

text \<open>
  \<^verbatim>\<open>std::toupper\<close> on an \<^verbatim>\<open>unsigned char\<close> in the "C" locale (the program never sets
  another): the 26 lower-case letters go to upper case, every other byte is unchanged.
\<close>

definition toupper :: "char \<Rightarrow> char" where
  "toupper c =
     (case map_of (zip ''abcdefghijklmnopqrstuvwxyz'' ''ABCDEFGHIJKLMNOPQRSTUVWXYZ'') c of
        Some u \<Rightarrow> u
      | None \<Rightarrow> c)"

definition parseIFF :: "string \<Rightarrow> IFF option" where
  "parseIFF token =
     (let t = map toupper token in
      if t = ''FRIEND'' \<or> t = ''F'' then Some Friend
      else if t = ''FOE'' \<or> t = ''HOSTILE'' \<or> t = ''H'' then Some Foe
      else if t = ''UNKNOWN'' \<or> t = ''U'' then Some Unknown
      else None)"

definition iffToStr :: "IFF \<Rightarrow> string" where
  "iffToStr k = (case k of Friend \<Rightarrow> ''FRIEND'' | Foe \<Rightarrow> ''FOE'' | Unknown \<Rightarrow> ''UNKNOWN'')"

text \<open>
  \<^verbatim>\<open>std::stod\<close> belongs to the C++ standard library, not to this program: it is a
  parameter of the model, a function that gives \<open>None\<close> where \<^verbatim>\<open>std::stod\<close> throws (no
  conversion possible, or out of range) and the converted value otherwise, a real
  number (the texts \<^verbatim>\<open>inf\<close> and \<^verbatim>\<open>nan\<close>, which \<^verbatim>\<open>std::stod\<close> accepts, have no value
  in the model). \<^verbatim>\<open>toDouble\<close> catches every exception and returns the default.
\<close>

type_synonym stod = "string \<Rightarrow> real option"

definition toDouble :: "stod \<Rightarrow> string \<Rightarrow> real \<Rightarrow> real" where
  "toDouble stod s def = (case stod s of Some v \<Rightarrow> v | None \<Rightarrow> def)"

subsection \<open>CSV ingest\<close>

text \<open>
  \<^verbatim>\<open>std::getline(stream, tok, delim)\<close> called until it fails: characters are taken up
  to the next delimiter, which is consumed; a token that ends at a delimiter is
  produced even when it is empty, and at the end of the stream a token is produced
  only if at least one character was taken. \<open>tok\<close> is the token read so far.
\<close>

fun getline_acc :: "char \<Rightarrow> string \<Rightarrow> string \<Rightarrow> string list" where
  "getline_acc delim tok [] = (if tok = [] then [] else [tok])"
| "getline_acc delim tok (c # cs) =
     (if c = delim then tok # getline_acc delim [] cs
      else getline_acc delim (tok @ [c]) cs)"

definition getline_all :: "char \<Rightarrow> string \<Rightarrow> string list" where
  "getline_all delim s = getline_acc delim [] s"

text \<open>The columns of a line: split at commas, each token trimmed.\<close>

definition split_cols :: "string \<Rightarrow> string list" where
  "split_cols line = map trim (getline_all CHR '','' line)"

text \<open>
  The state of the loop of \<^verbatim>\<open>loadCSV\<close>: the vector \<^verbatim>\<open>out\<close>, the flag
  \<^verbatim>\<open>maybeHeader\<close>, and the lines written to \<^verbatim>\<open>std::cerr\<close> so far.
\<close>

record loader =
  out :: "Contact list"
  maybeHeader :: bool
  cerr :: "string list"

definition looksHeader :: "string list \<Rightarrow> bool" where
  "looksHeader cols =
     (parseIFF (cols ! 1) = None \<or> cols ! 2 = ''range_km'' \<or> cols ! 3 = ''closing_mps'')"

text \<open>
  The part of the loop body after the header test: the column count, the
  classification token, then the contact with its four numbers.
\<close>

definition parse_row :: "stod \<Rightarrow> loader \<Rightarrow> string \<Rightarrow> string list \<Rightarrow> loader" where
  "parse_row stod st line cols =
     (if length cols < 6 then st\<lparr>cerr := cerr st @ [''Skipping malformed row: '' @ line]\<rparr>
      else
        (case parseIFF (cols ! 1) of
           None \<Rightarrow> st\<lparr>cerr := cerr st @ [''Skipping row with invalid IFF: '' @ line]\<rparr>
         | Some k \<Rightarrow>
             st\<lparr>out := out st @
               [\<lparr> id_c = cols ! 0, iff = k,
                  range_km = toDouble stod (cols ! 2) 1000000000,
                  closing_mps = toDouble stod (cols ! 3) 0,
                  altitude_m = toDouble stod (cols ! 4) 0,
                  rcs_m2 = toDouble stod (cols ! 5) 1 \<rparr>]\<rparr>))"

text \<open>
  One iteration of the \<^verbatim>\<open>while\<close> loop of \<^verbatim>\<open>loadCSV\<close> on the line \<open>raw\<close>. The
  header test looks at the columns only under \<^verbatim>\<open>cols.size() >= 6\<close>; a line that
  passes the test as a header clears the flag and is skipped, any other line clears the
  flag and goes on to \<open>parse_row\<close>.
\<close>

definition loadCSV_body :: "stod \<Rightarrow> loader \<Rightarrow> string \<Rightarrow> loader" where
  "loadCSV_body stod st raw =
     (let line = trim raw in
      if line = [] then st
      else if hd line = CHR ''#'' then st
      else
        (let cols = split_cols line in
         if maybeHeader st then
           (if length cols \<ge> 6 \<and> looksHeader cols then st\<lparr>maybeHeader := False\<rparr>
            else parse_row stod (st\<lparr>maybeHeader := False\<rparr>) line cols)
         else parse_row stod st line cols))"

definition loadCSV_init :: loader where
  "loadCSV_init = \<lparr> out = [], maybeHeader = True, cerr = [] \<rparr>"

text \<open>The loop over the lines of an opened file, given by its content.\<close>

definition loadCSV_lines :: "stod \<Rightarrow> string \<Rightarrow> loader" where
  "loadCSV_lines stod content =
     foldl (loadCSV_body stod) loadCSV_init (getline_all CHR 0x0A content)"

text \<open>
  The file system is a map from paths to contents, \<open>None\<close> for a file that cannot be
  opened. \<^verbatim>\<open>loadCSV\<close> throws \<^verbatim>\<open>std::runtime_error\<close> with a message then (\<open>Inl\<close>).
\<close>

type_synonym files = "string \<Rightarrow> string option"

definition loadCSV :: "files \<Rightarrow> stod \<Rightarrow> string \<Rightarrow> string + loader" where
  "loadCSV fs stod path =
     (case fs path of
        None \<Rightarrow> Inl (''Failed to open CSV: '' @ path)
      | Some content \<Rightarrow> Inr (loadCSV_lines stod content))"

subsection \<open>Scoring\<close>

record Weights =
  w_range_inv :: real
  w_closing :: real
  w_rcs :: real
  w_iff_friend :: real
  w_iff_unknown :: real
  w_iff_foe :: real
  w_alt_low :: real

text \<open>The default member initialisers of \<^verbatim>\<open>struct Weights\<close>, which \<^verbatim>\<open>main\<close> uses as they are.\<close>

definition default_weights :: Weights where
  "default_weights =
     \<lparr> w_range_inv = 60, w_closing = 0.25, w_rcs = 0.4, w_iff_friend = - 40,
       w_iff_unknown = 15, w_iff_foe = 30, w_alt_low = 0.004 \<rparr>"

definition clamp :: "real \<Rightarrow> real \<Rightarrow> real \<Rightarrow> real" where
  "clamp x lo hi = max lo (min hi x)"

text \<open>The local variables of \<^verbatim>\<open>score\<close>, one definition each, in the order of the source.\<close>

definition inv_range :: "Contact \<Rightarrow> real" where
  "inv_range c = (if range_km c > 0.05 then 1 / range_km c else 20)"

definition s_range :: "Contact \<Rightarrow> Weights \<Rightarrow> real" where
  "s_range c w = w_range_inv w * inv_range c"

definition closing_norm :: "Contact \<Rightarrow> real" where
  "closing_norm c = clamp (closing_mps c / 400) 0 1"

definition s_closing :: "Contact \<Rightarrow> Weights \<Rightarrow> real" where
  "s_closing c w = w_closing w * (closing_norm c * 100)"

definition rcs_log :: "Contact \<Rightarrow> real" where
  "rcs_log c = log 10 (max 0.01 (rcs_m2 c))"

definition s_rcs :: "Contact \<Rightarrow> Weights \<Rightarrow> real" where
  "s_rcs c w = w_rcs w * ((rcs_log c + 2) * 25)"

definition alt_term :: "Contact \<Rightarrow> real" where
  "alt_term c = (20000 - clamp (altitude_m c) 0 20000) / 200"

definition s_alt :: "Contact \<Rightarrow> Weights \<Rightarrow> real" where
  "s_alt c w = w_alt_low w * alt_term c"

definition s_iff :: "Contact \<Rightarrow> Weights \<Rightarrow> real" where
  "s_iff c w =
     (case iff c of
        Friend \<Rightarrow> w_iff_friend w
      | Unknown \<Rightarrow> w_iff_unknown w
      | Foe \<Rightarrow> w_iff_foe w)"

definition score :: "Contact \<Rightarrow> Weights \<Rightarrow> real" where
  "score c w = s_range c w + s_closing c w + s_rcs c w + s_alt c w + s_iff c w"

subsection \<open>Engagement suggestion\<close>

definition suggestion :: "Contact \<Rightarrow> real \<Rightarrow> string" where
  "suggestion c riskScore =
     (if iff c = Friend then ''IGNORE (FRIEND)''
      else if riskScore > 120 \<and> range_km c < 25 \<and> closing_mps c > 100 then ''INTERCEPT''
      else if riskScore > 80 \<and> range_km c < 50 then ''ELEVATED MONITOR''
      else ''MONITOR'')"

subsection \<open>Ranking, output and main\<close>

text \<open>
  \<^verbatim>\<open>std::sort\<close> with a comparator belongs to the standard library, which promises a
  permutation of the range ordered by the comparator and leaves the order of
  equivalent elements open. It is modelled by an insertion sort taking the same
  comparator (\<open>cmp a b\<close>: \<open>a\<close> goes before \<open>b\<close>); only the order of elements with
  equal scores can differ from what a given library produces.
\<close>

fun sort_insert :: "('a \<Rightarrow> 'a \<Rightarrow> bool) \<Rightarrow> 'a \<Rightarrow> 'a list \<Rightarrow> 'a list" where
  "sort_insert cmp x [] = [x]"
| "sort_insert cmp x (y # ys) =
     (if cmp y x then y # sort_insert cmp x ys else x # y # ys)"

definition std_sort :: "('a \<Rightarrow> 'a \<Rightarrow> bool) \<Rightarrow> 'a list \<Rightarrow> 'a list" where
  "std_sort cmp xs = foldr (sort_insert cmp) xs []"

text \<open>The comparator of \<^verbatim>\<open>main\<close>: \<^verbatim>\<open>a.second > b.second\<close>.\<close>

definition by_score :: "Contact \<times> real \<Rightarrow> Contact \<times> real \<Rightarrow> bool" where
  "by_score a b = (snd a > snd b)"

text \<open>
  \<^verbatim>\<open>printTable\<close> writes two heading lines and one line per ranked pair: the rank from 1,
  the fields of the contact, the score and the suggestion. The model keeps each line
  as a tuple; the fixed-width formatting of the numbers is not modelled.
\<close>

type_synonym table_row = "nat \<times> Contact \<times> real \<times> string"

definition printTable :: "(Contact \<times> real) list \<Rightarrow> table_row list" where
  "printTable ranked =
     map (\<lambda>(rank, (c, s)). (rank, c, s, suggestion c s)) (zip [1 ..< Suc (length ranked)] ranked)"

text \<open>
  The result of a run: the exit code, the table on standard output (\<open>None\<close> when
  \<^verbatim>\<open>printTable\<close> is not reached) and the lines on standard error. \<open>argv\<close> is the
  argument vector, the program's name first.
\<close>

record run =
  exit_code :: int
  stdout :: "table_row list option"
  stderr :: "string list"

definition csvPath :: "string list \<Rightarrow> string" where
  "csvPath argv = (if length argv > 1 then argv ! 1 else ''data/contacts.csv'')"

definition main :: "files \<Rightarrow> stod \<Rightarrow> string list \<Rightarrow> run" where
  "main fs stod argv =
     (case loadCSV fs stod (csvPath argv) of
        Inl what \<Rightarrow> \<lparr> exit_code = 2, stdout = None, stderr = [''ERROR: '' @ what] \<rparr>
      | Inr st \<Rightarrow>
          if out st = [] then
            \<lparr> exit_code = 1, stdout = None,
              stderr = cerr st @ [''No contacts loaded from '' @ csvPath argv] \<rparr>
          else
            (let ranked = std_sort by_score (map (\<lambda>c. (c, score c default_weights)) (out st))
             in \<lparr> exit_code = 0, stdout = Some (printTable ranked), stderr = cerr st \<rparr>))"

subsection \<open>The guarded operations of the scoring function\<close>

text \<open>
  In C++ a division of doubles by zero and \<^verbatim>\<open>std::log10\<close> of a number that is not
  positive do not trap: they give an infinity or NaN. To say that \<^verbatim>\<open>score\<close> never
  reaches them, the same computation is written once more with a division that has no
  value at divisor zero and a logarithm that has no value outside the positive numbers.
\<close>

definition checked_div :: "real \<Rightarrow> real \<Rightarrow> real option" where
  "checked_div a b = (if b = 0 then None else Some (a / b))"

definition checked_log10 :: "real \<Rightarrow> real option" where
  "checked_log10 x = (if 0 < x then Some (log 10 x) else None)"

definition score_checked :: "Contact \<Rightarrow> Weights \<Rightarrow> real option" where
  "score_checked c w =
     (case (if range_km c > 0.05 then checked_div 1 (range_km c) else Some 20) of
        None \<Rightarrow> None
      | Some inv_range' \<Rightarrow>
     (case checked_div (closing_mps c) 400 of
        None \<Rightarrow> None
      | Some q \<Rightarrow>
     (case checked_log10 (max 0.01 (rcs_m2 c)) of
        None \<Rightarrow> None
      | Some rcs_log' \<Rightarrow>
     (case checked_div (20000 - clamp (altitude_m c) 0 20000) 200 of
        None \<Rightarrow> None
      | Some alt_term' \<Rightarrow>
          Some (w_range_inv w * inv_range'
                + w_closing w * (clamp q 0 1 * 100)
                + w_rcs w * ((rcs_log' + 2) * 25)
                + w_alt_low w * alt_term'
                + s_iff c w)))))"

text \<open>The contact of the row \<^verbatim>\<open>B2,Foe,10,150,500,20\<close>.\<close>

definition contact_B2 :: Contact where
  "contact_B2 =
     \<lparr> id_c = ''B2'', iff = Foe, range_km = 10, closing_mps = 150,
       altitude_m = 500, rcs_m2 = 20 \<rparr>"

subsection \<open>Scoring in double precision\<close>

text \<open>
  Rounding to binary64, to nearest with ties to even. \<open>rne\<close> rounds a real number to
  an integer that way. \<open>expo x\<close> is the exponent of the binade of \<open>x\<close>, not below -1022,
  where the subnormal numbers begin; \<open>ulp x\<close> is the distance of neighbouring doubles
  there, and \<open>fl x\<close> is the double nearest to \<open>x\<close>. There is no largest exponent: for
  finite inputs no operation of \<^verbatim>\<open>score\<close> overflows. The operations are taken as the
  IEEE 754 operations on doubles, each rounded once (no extended precision, no fused
  multiply-add).
\<close>

definition rne :: "real \<Rightarrow> int" where
  "rne y =
     (let f = \<lfloor>y\<rfloor> in
      if y - of_int f < 1 / 2 then f
      else if 1 / 2 < y - of_int f then f + 1
      else if even f then f else f + 1)"

definition expo :: "real \<Rightarrow> int" where
  "expo x = max (- 1022) \<lfloor>log 2 \<bar>x\<bar>\<rfloor>"

definition ulp :: "real \<Rightarrow> real" where
  "ulp x = 2 powi (expo x - 52)"

definition fl :: "real \<Rightarrow> real" where
  "fl x = of_int (rne (x / ulp x)) * ulp x"

text \<open>
  The weights as doubles: 60, 0.25, -40, 15 and 30 are doubles, 0.4 and 0.004 are
  rounded by the compiler.
\<close>

definition double_weights :: Weights where
  "double_weights =
     \<lparr> w_range_inv = 60, w_closing = 0.25, w_rcs = fl 0.4, w_iff_friend = - 40,
       w_iff_unknown = 15, w_iff_foe = 30, w_alt_low = fl 0.004 \<rparr>"

text \<open>
  The local variables of \<^verbatim>\<open>score\<close> once more, each arithmetic operation rounded; the
  literals 0.05 and 0.01 are rounded, the other literals are doubles; comparisons,
  \<^verbatim>\<open>std::max\<close> and \<^verbatim>\<open>std::min\<close> are exact. \<^verbatim>\<open>std::log10\<close> belongs to the C library: it is
  the parameter \<open>lg\<close>. The sum is taken from left to right, as C++ does.
\<close>

definition inv_range_d :: "Contact \<Rightarrow> real" where
  "inv_range_d c = (if range_km c > fl 0.05 then fl (1 / range_km c) else 20)"

definition s_range_d :: "Contact \<Rightarrow> Weights \<Rightarrow> real" where
  "s_range_d c w = fl (w_range_inv w * inv_range_d c)"

definition closing_norm_d :: "Contact \<Rightarrow> real" where
  "closing_norm_d c = clamp (fl (closing_mps c / 400)) 0 1"

definition s_closing_d :: "Contact \<Rightarrow> Weights \<Rightarrow> real" where
  "s_closing_d c w = fl (w_closing w * fl (closing_norm_d c * 100))"

definition rcs_log_d :: "(real \<Rightarrow> real) \<Rightarrow> Contact \<Rightarrow> real" where
  "rcs_log_d lg c = lg (max (fl 0.01) (rcs_m2 c))"

definition s_rcs_d :: "(real \<Rightarrow> real) \<Rightarrow> Contact \<Rightarrow> Weights \<Rightarrow> real" where
  "s_rcs_d lg c w = fl (w_rcs w * fl (fl (rcs_log_d lg c + 2) * 25))"

definition alt_term_d :: "Contact \<Rightarrow> real" where
  "alt_term_d c = fl (fl (20000 - clamp (altitude_m c) 0 20000) / 200)"

definition s_alt_d :: "Contact \<Rightarrow> Weights \<Rightarrow> real" where
  "s_alt_d c w = fl (w_alt_low w * alt_term_d c)"

definition score_d :: "(real \<Rightarrow> real) \<Rightarrow> Contact \<Rightarrow> Weights \<Rightarrow> real" where
  "score_d lg c w =
     fl (fl (fl (fl (s_range_d c w + s_closing_d c w) + s_rcs_d lg c w) + s_alt_d c w)
         + s_iff c w)"

text \<open>
  A logarithm of full accuracy, the double nearest to the exact value: one function
  that \<open>lg\<close> can be. At the double of 0.01 it gives -2.
\<close>

definition log10_cr :: "real \<Rightarrow> real" where
  "log10_cr x = fl (log 10 x)"

text \<open>The contact of the row \<^verbatim>\<open>Z,Friend,1e20,0,20000,0\<close>.\<close>

definition contact_Z :: Contact where
  "contact_Z =
     \<lparr> id_c = ''Z'', iff = Friend, range_km = 100000000000000000000, closing_mps = 0,
       altitude_m = 20000, rcs_m2 = 0 \<rparr>"

subsection \<open>Relations between loader states\<close>

text \<open>
  Two states of the loop agree on which rows were kept (their identifiers and
  classifications, in order), on the header flag and on the diagnostics; the numbers
  of the contacts may differ.
\<close>

definition same_rows :: "loader \<Rightarrow> loader \<Rightarrow> bool" where
  "same_rows s t =
     (map (\<lambda>c. (id_c c, iff c)) (out s) = map (\<lambda>c. (id_c c, iff c)) (out t)
      \<and> maybeHeader s = maybeHeader t \<and> cerr s = cerr t)"

text \<open>
  The contact \<open>c\<close> comes from one of the lines \<open>raws\<close>: a line of at least six columns
  whose second column parses to the classification of \<open>c\<close> and whose first column is
  its identifier.
\<close>

definition from_lines :: "string list \<Rightarrow> Contact \<Rightarrow> bool" where
  "from_lines raws c =
     (\<exists>raw \<in> set raws. 6 \<le> length (split_cols (trim raw))
        \<and> parseIFF (split_cols (trim raw) ! 1) = Some (iff c)
        \<and> id_c c = split_cols (trim raw) ! 0)"

section \<open>Auxiliary facts\<close>

subsection \<open>Facts about the logarithm to base 10\<close>

lemma log10_2_lower: "(31::real) / 103 < log 10 2"
proof -
  have "real (31::nat) < log 10 (real ((2::nat) ^ 103))"
    by (rule less_log_of_power) simp_all
  moreover have "log 10 ((2::real) ^ 103) = real 103 * log 10 2"
    by (rule log_nat_power) simp
  moreover have "real ((2::nat) ^ 103) = (2::real) ^ 103"
    by simp
  ultimately show ?thesis by simp
qed

lemma log10_2_upper: "log 10 2 < (28::real) / 93"
proof -
  have "log 10 (real ((2::nat) ^ 93)) < real (28::nat)"
    by (rule log_of_power_less) simp_all
  moreover have "log 10 ((2::real) ^ 93) = real 93 * log 10 2"
    by (rule log_nat_power) simp
  moreover have "real ((2::nat) ^ 93) = (2::real) ^ 93"
    by simp
  ultimately show ?thesis by simp
qed

lemma log10_20: "log 10 20 = 1 + log 10 2"
proof -
  have "log 10 20 = log 10 (10 * 2)" by simp
  also have "\<dots> = log 10 10 + log 10 2" by (subst log_mult) simp_all
  finally show ?thesis by simp
qed

subsection \<open>The terms of the score\<close>

lemma inv_range_le: "inv_range c \<le> 20"
proof (cases "range_km c > 0.05")
  case True
  then have "1 / range_km c < 1 / 0.05"
    by (intro divide_strict_left_mono) simp_all
  with True show ?thesis by (simp add: inv_range_def)
next
  case False
  then show ?thesis by (simp add: inv_range_def)
qed

lemma score_B2: "score contact_B2 default_weights = 75.765 + 10 * log 10 2"
  by (simp add: score_def s_range_def inv_range_def s_closing_def closing_norm_def clamp_def
      s_rcs_def rcs_log_def s_alt_def alt_term_def s_iff_def default_weights_def contact_B2_def
      log10_20 field_simps)

lemma score_B2_bounds:
  "78.77 < score contact_B2 default_weights \<and> score contact_B2 default_weights < 78.78"
  using log10_2_lower log10_2_upper by (simp add: score_B2)

subsection \<open>The insertion sort\<close>

lemma mset_sort_insert: "mset (sort_insert cmp x ys) = add_mset x (mset ys)"
  by (induction ys) simp_all

lemma mset_std_sort: "mset (std_sort cmp xs) = mset xs"
  by (induction xs) (simp_all add: std_sort_def mset_sort_insert)

lemma set_sort_insert: "set (sort_insert cmp x ys) = insert x (set ys)"
  by (induction ys) auto

lemma sorted_sort_insert:
  "sorted_wrt (\<lambda>a b. snd b \<le> snd a) ys \<Longrightarrow>
   sorted_wrt (\<lambda>a b. snd b \<le> snd a) (sort_insert by_score x ys)"
  by (induction ys) (auto simp: set_sort_insert by_score_def)

subsection \<open>The loop of the loader\<close>

lemmas ingest_eval = trim_def is_ws_def getline_all_def split_cols_def parseIFF_def toupper_def
  looksHeader_def parse_row_def loadCSV_body_def loadCSV_init_def loadCSV_lines_def Let_def
  toDouble_def

lemma body_skip:
  "trim raw = [] \<or> hd (trim raw) = CHR ''#'' \<Longrightarrow> loadCSV_body stod st raw = st"
  by (auto simp: loadCSV_body_def Let_def)

lemma maybeHeader_parse_row [simp]:
  "maybeHeader (parse_row stod st line cols) = maybeHeader st"
  by (simp add: parse_row_def split: option.splits)

lemma body_no_header:
  "\<not> maybeHeader st \<Longrightarrow>
   loadCSV_body stod st raw =
     (if trim raw = [] \<or> hd (trim raw) = CHR ''#'' then st
      else parse_row stod st (trim raw) (split_cols (trim raw)))"
  by (simp add: loadCSV_body_def Let_def)

lemma body_clears:
  "trim raw \<noteq> [] \<Longrightarrow> hd (trim raw) \<noteq> CHR ''#'' \<Longrightarrow>
   \<not> maybeHeader (loadCSV_body stod st raw)"
  by (simp add: loadCSV_body_def Let_def)

lemma body_stays_clear: "\<not> maybeHeader st \<Longrightarrow> \<not> maybeHeader (loadCSV_body stod st raw)"
  by (simp add: body_no_header)

lemma foldl_stays_clear:
  "\<not> maybeHeader st \<Longrightarrow> \<not> maybeHeader (foldl (loadCSV_body stod) st raws)"
  by (induction raws arbitrary: st) (simp_all add: body_stays_clear)

lemma body_row_kept:
  assumes "trim raw \<noteq> []" "hd (trim raw) \<noteq> CHR ''#''"
    and "6 \<le> length (split_cols (trim raw))"
    and "parseIFF (split_cols (trim raw) ! 1) = Some k"
    and "\<not> (maybeHeader st \<and> looksHeader (split_cols (trim raw)))"
  shows "loadCSV_body stod st raw =
     st\<lparr>maybeHeader := False,
        out := out st @
          [\<lparr> id_c = split_cols (trim raw) ! 0, iff = k,
             range_km = toDouble stod (split_cols (trim raw) ! 2) 1000000000,
             closing_mps = toDouble stod (split_cols (trim raw) ! 3) 0,
             altitude_m = toDouble stod (split_cols (trim raw) ! 4) 0,
             rcs_m2 = toDouble stod (split_cols (trim raw) ! 5) 1 \<rparr>]\<rparr>"
  using assms by (cases "maybeHeader st") (simp_all add: loadCSV_body_def Let_def parse_row_def)

text \<open>Which rows are kept does not depend on the conversion of the numbers.\<close>

lemma same_rows_parse_row:
  "same_rows s t \<Longrightarrow> same_rows (parse_row stod s line cols) (parse_row stod' t line cols)"
  by (simp add: same_rows_def parse_row_def split: option.splits)

lemma same_rows_body:
  "same_rows s t \<Longrightarrow> same_rows (loadCSV_body stod s raw) (loadCSV_body stod' t raw)"
proof -
  assume st: "same_rows s t"
  then have mh: "maybeHeader s = maybeHeader t" by (simp add: same_rows_def)
  from st have "same_rows (s\<lparr>maybeHeader := False\<rparr>) (t\<lparr>maybeHeader := False\<rparr>)"
    by (simp add: same_rows_def)
  with st mh show ?thesis
    by (simp add: loadCSV_body_def Let_def same_rows_parse_row)
qed

lemma same_rows_foldl:
  "same_rows s t \<Longrightarrow>
   same_rows (foldl (loadCSV_body stod) s raws) (foldl (loadCSV_body stod') t raws)"
  by (induction raws arbitrary: s t) (simp_all add: same_rows_body)

lemma same_rows_lines: "same_rows (loadCSV_lines stod content) (loadCSV_lines stod' content)"
  unfolding loadCSV_lines_def by (rule same_rows_foldl) (simp add: same_rows_def)

text \<open>Every contact of the result comes from a line with a recognised classification.\<close>

lemma out_parse_row:
  "c \<in> set (out (parse_row stod st line cols)) \<Longrightarrow>
   c \<in> set (out st)
   \<or> (6 \<le> length cols \<and> parseIFF (cols ! 1) = Some (iff c) \<and> id_c c = cols ! 0)"
  by (auto simp: parse_row_def split: if_splits option.splits)

lemma out_body:
  "c \<in> set (out (loadCSV_body stod st raw)) \<Longrightarrow> c \<in> set (out st) \<or> from_lines [raw] c"
  using out_parse_row [of c stod st "trim raw" "split_cols (trim raw)"]
    out_parse_row [of c stod "st\<lparr>maybeHeader := False\<rparr>" "trim raw" "split_cols (trim raw)"]
  by (auto simp: loadCSV_body_def Let_def from_lines_def split: if_splits)

lemma out_foldl:
  "c \<in> set (out (foldl (loadCSV_body stod) st raws)) \<Longrightarrow>
   c \<in> set (out st) \<or> from_lines raws c"
proof (induction raws arbitrary: st)
  case Nil
  then show ?case by simp
next
  case (Cons raw raws)
  from Cons.prems
  have "c \<in> set (out (foldl (loadCSV_body stod) (loadCSV_body stod st raw) raws))"
    by simp
  then have "c \<in> set (out (loadCSV_body stod st raw)) \<or> from_lines raws c"
    by (rule Cons.IH)
  then show ?case
    using out_body [of c stod st raw] by (auto simp: from_lines_def)
qed

lemma out_lines:
  "c \<in> set (out (loadCSV_lines stod content)) \<Longrightarrow>
   from_lines (getline_all CHR 0x0A content) c"
  using out_foldl [of c stod loadCSV_init "getline_all CHR 0x0A content"]
  by (simp add: loadCSV_lines_def loadCSV_init_def)

subsection \<open>The classification token\<close>

lemma toupper_range: "toupper c = c \<or> toupper c \<in> set ''ABCDEFGHIJKLMNOPQRSTUVWXYZ''"
  by (simp add: toupper_def)

lemma toupper_upper: "list_all (\<lambda>u. toupper u = u) ''ABCDEFGHIJKLMNOPQRSTUVWXYZ''"
  by (simp add: toupper_def)

lemma toupper_idem: "toupper (toupper c) = toupper c"
  using toupper_range [of c] toupper_upper unfolding list_all_iff by metis

lemma parseIFF_cases:
  "parseIFF tok =
     (if map toupper tok \<in> {''FRIEND'', ''F''} then Some Friend
      else if map toupper tok \<in> {''FOE'', ''HOSTILE'', ''H''} then Some Foe
      else if map toupper tok \<in> {''UNKNOWN'', ''U''} then Some Unknown
      else None)"
  by (simp add: parseIFF_def Let_def)

lemma parseIFF_upper: "map toupper s = map toupper t \<Longrightarrow> parseIFF s = parseIFF t"
  by (simp add: parseIFF_def)

subsection \<open>The table and the example row\<close>

lemma length_printTable: "length (printTable ranked) = length ranked"
  by (simp add: printTable_def del: upt_Suc)

lemma length_std_sort: "length (std_sort cmp xs) = length xs"
  using mset_std_sort [of cmp xs] by (metis size_mset)

lemma lines_B2:
  assumes "stod ''10'' = Some 10" "stod ''150'' = Some 150" "stod ''500'' = Some 500"
    "stod ''20'' = Some 20"
  shows "loadCSV_lines stod ''B2,Foe,10,150,500,20'' =
    \<lparr> out = [contact_B2], maybeHeader = False, cerr = [] \<rparr>"
  using assms by (simp add: ingest_eval contact_B2_def)

lemma suggestion_B2: "suggestion contact_B2 (score contact_B2 default_weights) = ''MONITOR''"
proof -
  have "iff contact_B2 = Foe" by (simp add: contact_B2_def)
  with score_B2_bounds show ?thesis by (simp add: suggestion_def)
qed

subsection \<open>Rounding to binary64\<close>

lemma rne_of_int [simp]: "rne (of_int n) = n"
  by (simp add: rne_def)

lemma rne_0 [simp]: "rne 0 = 0"
  using rne_of_int [of 0] by simp

lemma rne_cases: "rne y = \<lfloor>y\<rfloor> \<or> rne y = \<lfloor>y\<rfloor> + 1"
  by (simp add: rne_def Let_def)

lemma rne_mono: "x \<le> y \<Longrightarrow> rne x \<le> rne y"
proof -
  assume xy: "x \<le> y"
  then have fxy: "\<lfloor>x\<rfloor> \<le> \<lfloor>y\<rfloor>" by (rule floor_mono)
  show ?thesis
  proof (cases "\<lfloor>x\<rfloor> = \<lfloor>y\<rfloor>")
    case True
    with xy show ?thesis by (auto simp: rne_def Let_def)
  next
    case False
    with fxy have "\<lfloor>x\<rfloor> + 1 \<le> \<lfloor>y\<rfloor>" by simp
    moreover have "rne x \<le> \<lfloor>x\<rfloor> + 1" using rne_cases [of x] by auto
    moreover have "\<lfloor>y\<rfloor> \<le> rne y" using rne_cases [of y] by auto
    ultimately show ?thesis by simp
  qed
qed

lemma rne_minus: "rne (- y) = - rne y"
proof (cases "y = of_int \<lfloor>y\<rfloor>")
  case True
  then obtain n where "y = of_int n" ..
  then have "- y = of_int (- n)" by simp
  then have "rne (- y) = - n" by (simp only: rne_of_int)
  with \<open>y = of_int n\<close> show ?thesis by simp
next
  case False
  then have lt: "of_int \<lfloor>y\<rfloor> < y" by (metis floor_less_cancel floor_of_int of_int_floor_le order_le_less)
  have ub: "y < of_int \<lfloor>y\<rfloor> + 1" by linarith
  have f: "\<lfloor>- y\<rfloor> = - \<lfloor>y\<rfloor> - 1"
  proof (rule floor_unique)
    have c: "(of_int (- \<lfloor>y\<rfloor> - 1) :: real) = - of_int \<lfloor>y\<rfloor> - 1" by simp
    show "of_int (- \<lfloor>y\<rfloor> - 1) \<le> - y" unfolding c using ub by linarith
    show "- y < of_int (- \<lfloor>y\<rfloor> - 1) + 1" unfolding c using lt by linarith
  qed
  show ?thesis
    unfolding rne_def Let_def f using lt by (auto simp: field_simps)
qed

lemma rne_nonneg: "0 \<le> y \<Longrightarrow> 0 \<le> rne y"
  using rne_mono [of 0 y] by simp

lemma two_powr_int: "(2::real) powr of_int k = 2 powi k"
  by (rule powr_real_of_int') simp_all

lemma floor_log2_bounds:
  assumes "0 < x"
  shows "2 powi \<lfloor>log 2 x\<rfloor> \<le> x" and "x < 2 powi (\<lfloor>log 2 x\<rfloor> + 1)"
proof -
  have "2 powr of_int \<lfloor>log 2 x\<rfloor> \<le> x \<and> x < 2 powr (of_int \<lfloor>log 2 x\<rfloor> + 1)"
    using floor_log_eq_powr_iff [of x 2 "\<lfloor>log 2 x\<rfloor>"] assms by simp
  moreover have "(2::real) powr (of_int \<lfloor>log 2 x\<rfloor> + 1) = 2 powi (\<lfloor>log 2 x\<rfloor> + 1)"
    using two_powr_int [of "\<lfloor>log 2 x\<rfloor> + 1"] by simp
  ultimately show "2 powi \<lfloor>log 2 x\<rfloor> \<le> x" and "x < 2 powi (\<lfloor>log 2 x\<rfloor> + 1)"
    by (simp_all add: two_powr_int)
qed

lemma floor_log2_eqI:
  assumes "2 powi e \<le> x" "x < 2 powi (e + 1)"
  shows "\<lfloor>log 2 x\<rfloor> = e"
proof -
  have pos: "0 < x" using assms(1) by (smt (verit) zero_less_power_int)
  have "(2::real) powr (of_int e + 1) = 2 powi (e + 1)"
    using two_powr_int [of "e + 1"] by simp
  with assms show ?thesis
    using floor_log_eq_powr_iff [of x 2 e] pos by (simp add: two_powr_int)
qed

lemma expo_minus [simp]: "expo (- x) = expo x"
  by (simp add: expo_def)

lemma expo_abs [simp]: "expo \<bar>x\<bar> = expo x"
  by (simp add: expo_def)

lemma expo_ge: "- 1022 \<le> expo x"
  by (simp add: expo_def)

lemma pow2_mono: "i \<le> j \<Longrightarrow> (2::real) powi i \<le> 2 powi j"
  by (rule power_int_increasing) simp_all

lemma expo_upper: "x \<noteq> 0 \<Longrightarrow> \<bar>x\<bar> < 2 powi (expo x + 1)"
proof -
  assume "x \<noteq> 0"
  then have "\<bar>x\<bar> < 2 powi (\<lfloor>log 2 \<bar>x\<bar>\<rfloor> + 1)"
    by (intro floor_log2_bounds) simp
  also have "\<dots> \<le> 2 powi (expo x + 1)"
    by (rule pow2_mono) (simp add: expo_def)
  finally show ?thesis .
qed

lemma expo_lower: "x \<noteq> 0 \<Longrightarrow> - 1022 < expo x \<Longrightarrow> 2 powi (expo x) \<le> \<bar>x\<bar>"
proof -
  assume x: "x \<noteq> 0" and e: "- 1022 < expo x"
  then have "expo x = \<lfloor>log 2 \<bar>x\<bar>\<rfloor>" by (simp add: expo_def max_def split: if_splits)
  with x show ?thesis using floor_log2_bounds(1) [of "\<bar>x\<bar>"] by simp
qed

lemma expo_eqI:
  assumes "2 powi e \<le> \<bar>x\<bar>" "\<bar>x\<bar> < 2 powi (e + 1)" "- 1022 \<le> e"
  shows "expo x = e"
  using floor_log2_eqI [OF assms(1,2)] assms(3) by (simp add: expo_def)

lemma expo_mono: "0 < x \<Longrightarrow> x \<le> y \<Longrightarrow> expo x \<le> expo y"
proof -
  assume "0 < x" "x \<le> y"
  then have "log 2 x \<le> log 2 y" by simp
  then have "\<lfloor>log 2 x\<rfloor> \<le> \<lfloor>log 2 y\<rfloor>" by (rule floor_mono)
  with \<open>0 < x\<close> \<open>x \<le> y\<close> show ?thesis by (simp add: expo_def)
qed

lemma ulp_pos [simp]: "0 < ulp x"
  by (simp add: ulp_def)

lemma ulp_minus [simp]: "ulp (- x) = ulp x"
  by (simp add: ulp_def)

lemma fl_0 [simp]: "fl 0 = 0"
  by (simp add: fl_def)

lemma fl_minus: "fl (- x) = - fl x"
  by (simp add: fl_def rne_minus)

lemma fl_nonneg: "0 \<le> x \<Longrightarrow> 0 \<le> fl x"
proof -
  assume "0 \<le> x"
  then have "0 \<le> x / ulp x" by (intro divide_nonneg_pos ulp_pos)
  then have "0 \<le> rne (x / ulp x)" by (rule rne_nonneg)
  then have "0 \<le> real_of_int (rne (x / ulp x))" by simp
  moreover have "0 \<le> ulp x" using ulp_pos [of x] by (rule less_imp_le)
  ultimately show ?thesis unfolding fl_def by (rule mult_nonneg_nonneg)
qed

lemma pow2_split:
  "(2::real) powi (e + 1) = 2 ^ 53 * 2 powi (e - 52)"
  "(2::real) powi e = 2 ^ 52 * 2 powi (e - 52)"
proof -
  have "(2::real) powi (53 + (e - 52)) = 2 powi 53 * 2 powi (e - 52)"
    by (rule power_int_add) simp
  moreover have "53 + (e - 52) = e + 1" by simp
  ultimately show "(2::real) powi (e + 1) = 2 ^ 53 * 2 powi (e - 52)" by simp
  have "(2::real) powi (52 + (e - 52)) = 2 powi 52 * 2 powi (e - 52)"
    by (rule power_int_add) simp
  then show "(2::real) powi e = 2 ^ 52 * 2 powi (e - 52)" by simp
qed

lemma fl_upper:
  assumes "0 < x"
  shows "fl x \<le> 2 powi (expo x + 1)"
proof -
  have "x < 2 powi (expo x + 1)" using expo_upper [of x] assms by simp
  also have "(2::real) powi (expo x + 1) = 2 ^ 53 * ulp x"
    unfolding ulp_def by (rule pow2_split)
  finally have "x / ulp x \<le> of_int (2 ^ 53)"
    by (simp add: field_simps)
  then have "rne (x / ulp x) \<le> rne (of_int (2 ^ 53))" by (rule rne_mono)
  then have "rne (x / ulp x) \<le> 2 ^ 53" by (simp only: rne_of_int)
  then have "real_of_int (rne (x / ulp x)) \<le> 2 ^ 53"
    by (metis of_int_le_iff of_int_numeral of_int_power)
  then have "fl x \<le> 2 ^ 53 * ulp x"
    by (simp add: fl_def)
  also have "\<dots> = 2 powi (expo x + 1)"
    unfolding ulp_def by (rule pow2_split(1) [symmetric])
  finally show ?thesis .
qed

lemma fl_lower:
  assumes "0 < x" "- 1022 < expo x"
  shows "2 powi (expo x) \<le> fl x"
proof -
  have "2 powi (expo x) \<le> x" using expo_lower [of x] assms by simp
  moreover have e: "(2::real) powi (expo x) = 2 ^ 52 * ulp x"
    unfolding ulp_def by (rule pow2_split)
  ultimately have "of_int (2 ^ 52) \<le> x / ulp x"
    by (simp add: field_simps)
  then have "rne (of_int (2 ^ 52)) \<le> rne (x / ulp x)" by (rule rne_mono)
  then have "2 ^ 52 \<le> rne (x / ulp x)" by (simp only: rne_of_int)
  then have "2 ^ 52 \<le> real_of_int (rne (x / ulp x))"
    by (metis of_int_le_iff of_int_numeral of_int_power)
  then have "2 ^ 52 * ulp x \<le> fl x"
    by (simp add: fl_def)
  with e show ?thesis by simp
qed

lemma fl_mono_pos:
  assumes "0 < x" "x \<le> y"
  shows "fl x \<le> fl y"
proof (cases "expo x = expo y")
  case True
  then have u: "ulp x = ulp y" by (simp add: ulp_def)
  have "x / ulp y \<le> y / ulp y"
    by (rule divide_right_mono) (simp_all add: assms less_imp_le)
  then have "rne (x / ulp y) \<le> rne (y / ulp y)" by (rule rne_mono)
  then show ?thesis by (simp add: fl_def u)
next
  case False
  with expo_mono [OF assms] have lt: "expo x < expo y" by simp
  then have "expo x + 1 \<le> expo y" by simp
  then have "(2::real) powi (expo x + 1) \<le> 2 powi (expo y)" by (rule pow2_mono)
  moreover have "fl x \<le> 2 powi (expo x + 1)" using assms by (intro fl_upper)
  moreover have "2 powi (expo y) \<le> fl y"
    using assms lt expo_ge [of x] by (intro fl_lower) simp_all
  ultimately show ?thesis by linarith
qed

lemma fl_mono: "x \<le> y \<Longrightarrow> fl x \<le> fl y"
proof -
  assume xy: "x \<le> y"
  consider "0 < x" | "x \<le> 0" "0 \<le> y" | "y < 0" by linarith
  then show ?thesis
  proof cases
    case 1
    then show ?thesis using xy by (rule fl_mono_pos)
  next
    case 2
    then have "fl x \<le> 0" using fl_nonneg [of "- x"] by (simp add: fl_minus)
    moreover have "0 \<le> fl y" using 2 by (intro fl_nonneg)
    ultimately show ?thesis by simp
  next
    case 3
    with xy have "fl (- y) \<le> fl (- x)" by (intro fl_mono_pos) simp_all
    then show ?thesis by (simp add: fl_minus)
  qed
qed

lemma fl_eval:
  assumes "2 powi e \<le> \<bar>x\<bar>" "\<bar>x\<bar> < 2 powi (e + 1)" "- 1022 \<le> e"
  shows "fl x = of_int (rne (x / 2 powi (e - 52))) * 2 powi (e - 52)"
  using expo_eqI [OF assms] by (simp add: fl_def ulp_def)

lemma fl_pow2: "- 1022 \<le> k \<Longrightarrow> fl (2 powi k) = 2 powi k"
proof -
  assume k: "- 1022 \<le> k"
  have lt: "(2::real) powi k < 2 powi (k + 1)"
    by (rule power_int_strict_increasing) simp_all
  have "fl (2 powi k) = of_int (rne (2 powi k / 2 powi (k - 52))) * 2 powi (k - 52)"
    using lt k by (intro fl_eval) simp_all
  also have "(2::real) powi k / 2 powi (k - 52) = of_int (2 ^ 52)"
    by (simp add: power_int_diff)
  also have "of_int (rne (of_int (2 ^ 52))) * 2 powi (k - 52) = (2::real) powi k"
    by (simp only: rne_of_int) (simp add: power_int_diff)
  finally show ?thesis .
qed

lemma rne_near: "\<bar>y - of_int n\<bar> < 1 / 2 \<Longrightarrow> rne y = n"
proof (cases "of_int n \<le> y")
  case True
  assume a: "\<bar>y - of_int n\<bar> < 1 / 2"
  with True have "\<lfloor>y\<rfloor> = n" by (intro floor_unique) linarith+
  with a True show ?thesis by (simp add: rne_def)
next
  case False
  assume a: "\<bar>y - of_int n\<bar> < 1 / 2"
  have c: "(of_int (n - 1) :: real) = of_int n - 1" by simp
  have "\<lfloor>y\<rfloor> = n - 1"
  proof (rule floor_unique)
    show "of_int (n - 1) \<le> y" unfolding c using a False by linarith
    show "y < of_int (n - 1) + 1" unfolding c using False by linarith
  qed
  moreover have "1 / 2 < y - (of_int n - 1)" using a False by linarith
  ultimately show ?thesis by (simp add: rne_def)
qed

lemma fl_near:
  assumes "2 powi e \<le> \<bar>x\<bar>" "\<bar>x\<bar> < 2 powi (e + 1)" "- 1022 \<le> e"
    and "\<bar>x / 2 powi (e - 52) - of_int n\<bar> < 1 / 2"
  shows "fl x = of_int n * 2 powi (e - 52)"
  using fl_eval [OF assms(1-3)] rne_near [OF assms(4)] by simp

lemma fl_20000: "fl 20000 = 20000"
  using fl_near [of 14 20000 "20000 * 2 ^ 38"] by simp

lemma fl_20: "fl 20 = 20"
  using fl_near [of 4 20 "20 * 2 ^ 48"] by simp

lemma fl_m40: "fl (- 40) = - 40"
  using fl_near [of 5 "- 40" "- 40 * 2 ^ 47"] by simp

lemma fl_m2: "fl (- 2) = - 2"
  using fl_near [of 1 "- 2" "- (2 ^ 52)"] by simp

lemma fl_alt_tiny: "fl (20000 - 1 / 2 ^ 40) = 20000"
  using fl_near [of 14 "20000 - 1 / 2 ^ 40" "20000 * 2 ^ 38"] by simp

lemma fl_m40_tiny: "fl (- 40 + 1 / 2 ^ 54) = - 40"
  using fl_near [of 5 "- 40 + 1 / 2 ^ 54" "- 40 * 2 ^ 47"] by simp

lemma fl_hundredth: "fl (1 / 100) = 5764607523034235 / 2 ^ 59"
  using fl_near [of "- 7" "1 / 100" 5764607523034235] by simp

subsection \<open>The rounded terms of the score\<close>

lemma clamp_mono: "x \<le> y \<Longrightarrow> clamp x lo hi \<le> clamp y lo hi"
  by (simp add: clamp_def min_def max_def)

lemma fl_hundredth_ge: "1 / 100 \<le> fl (1 / 100)"
  by (simp add: fl_hundredth)

lemma fl_twentieth_pos: "0 \<le> fl (5 / 100)"
  by (rule fl_nonneg) simp

lemma w_rcs_nonneg: "0 \<le> w_rcs double_weights"
  by (simp add: double_weights_def fl_nonneg)

lemma w_alt_nonneg: "0 \<le> w_alt_low double_weights"
  by (simp add: double_weights_def fl_nonneg)

lemma inv_range_d_nonneg: "0 \<le> inv_range_d c"
proof (cases "range_km c > fl 0.05")
  case True
  with fl_twentieth_pos have "0 \<le> 1 / range_km c" by simp
  then have "0 \<le> fl (1 / range_km c)" by (rule fl_nonneg)
  with True show ?thesis by (simp add: inv_range_d_def)
next
  case False
  then show ?thesis by (simp add: inv_range_d_def)
qed

lemma inv_range_d_le: "inv_range_d c \<le> 20"
proof (cases "range_km c > fl 0.05")
  case True
  have "(5::real) / 100 \<le> fl (5 / 100)"
    using fl_near [of "- 5" "5 / 100" 7205759403792794] by simp
  with True have r: "5 / 100 < range_km c" by simp
  then have "1 / range_km c \<le> 1 / (5 / 100)"
    by (intro divide_left_mono) simp_all
  then have "1 / range_km c \<le> 20" by simp
  then have "fl (1 / range_km c) \<le> fl 20" by (rule fl_mono)
  with True show ?thesis by (simp add: inv_range_d_def fl_20)
next
  case False
  then show ?thesis by (simp add: inv_range_d_def)
qed

lemma inv_range_d_antimono:
  assumes "r1 \<le> r2"
  shows "inv_range_d (c\<lparr>range_km := r2\<rparr>) \<le> inv_range_d (c\<lparr>range_km := r1\<rparr>)"
proof (cases "r1 > fl 0.05")
  case True
  with assms have r2: "r2 > fl 0.05" by simp
  from True fl_twentieth_pos have "0 < r1" by simp
  with assms have "1 / r2 \<le> 1 / r1" by (simp add: frac_le)
  then have "fl (1 / r2) \<le> fl (1 / r1)" by (rule fl_mono)
  with True r2 show ?thesis by (simp add: inv_range_d_def)
next
  case False
  then have "inv_range_d (c\<lparr>range_km := r1\<rparr>) = 20" by (simp add: inv_range_d_def)
  with inv_range_d_le [of "c\<lparr>range_km := r2\<rparr>"] show ?thesis by simp
qed

lemma s_range_d_antimono:
  assumes "r1 \<le> r2"
  shows "s_range_d (c\<lparr>range_km := r2\<rparr>) double_weights
         \<le> s_range_d (c\<lparr>range_km := r1\<rparr>) double_weights"
proof -
  have "60 * inv_range_d (c\<lparr>range_km := r2\<rparr>) \<le> 60 * inv_range_d (c\<lparr>range_km := r1\<rparr>)"
    using inv_range_d_antimono [OF assms, of c] by simp
  then show ?thesis
    unfolding s_range_d_def by (simp add: double_weights_def fl_mono)
qed

lemma s_closing_d_mono:
  assumes "v1 \<le> v2"
  shows "s_closing_d (c\<lparr>closing_mps := v1\<rparr>) double_weights
         \<le> s_closing_d (c\<lparr>closing_mps := v2\<rparr>) double_weights"
proof -
  from assms have "v1 / 400 \<le> v2 / 400" by simp
  then have "fl (v1 / 400) \<le> fl (v2 / 400)" by (rule fl_mono)
  then have "clamp (fl (v1 / 400)) 0 1 \<le> clamp (fl (v2 / 400)) 0 1" by (rule clamp_mono)
  then have "clamp (fl (v1 / 400)) 0 1 * 100 \<le> clamp (fl (v2 / 400)) 0 1 * 100" by simp
  then have "fl (clamp (fl (v1 / 400)) 0 1 * 100) \<le> fl (clamp (fl (v2 / 400)) 0 1 * 100)"
    by (rule fl_mono)
  then have "0.25 * fl (clamp (fl (v1 / 400)) 0 1 * 100)
      \<le> 0.25 * fl (clamp (fl (v2 / 400)) 0 1 * 100)" by simp
  then show ?thesis
    unfolding s_closing_d_def closing_norm_d_def by (simp add: double_weights_def fl_mono)
qed

lemma s_rcs_d_mono:
  assumes lg: "\<forall>x y. fl 0.01 \<le> x \<and> x \<le> y \<longrightarrow> lg x \<le> lg y" and "a1 \<le> a2"
  shows "s_rcs_d lg (c\<lparr>rcs_m2 := a1\<rparr>) double_weights
         \<le> s_rcs_d lg (c\<lparr>rcs_m2 := a2\<rparr>) double_weights"
proof -
  have "fl 0.01 \<le> max (fl 0.01) a1" "max (fl 0.01) a1 \<le> max (fl 0.01) a2"
    using assms(2) by simp_all
  with lg have "lg (max (fl 0.01) a1) \<le> lg (max (fl 0.01) a2)" by blast
  then have "fl (lg (max (fl 0.01) a1) + 2) \<le> fl (lg (max (fl 0.01) a2) + 2)"
    by (intro fl_mono) simp
  then have "fl (fl (lg (max (fl 0.01) a1) + 2) * 25) \<le> fl (fl (lg (max (fl 0.01) a2) + 2) * 25)"
    by (intro fl_mono) simp
  then have "fl 0.4 * fl (fl (lg (max (fl 0.01) a1) + 2) * 25)
      \<le> fl 0.4 * fl (fl (lg (max (fl 0.01) a2) + 2) * 25)"
    using w_rcs_nonneg by (intro mult_left_mono) (simp_all add: double_weights_def)
  then show ?thesis
    unfolding s_rcs_d_def rcs_log_d_def by (simp add: double_weights_def fl_mono)
qed

lemma s_alt_d_antimono:
  assumes "h1 \<le> h2"
  shows "s_alt_d (c\<lparr>altitude_m := h2\<rparr>) double_weights
         \<le> s_alt_d (c\<lparr>altitude_m := h1\<rparr>) double_weights"
proof -
  from assms have "clamp h1 0 20000 \<le> clamp h2 0 20000" by (rule clamp_mono)
  then have "20000 - clamp h2 0 20000 \<le> 20000 - clamp h1 0 20000" by simp
  then have "fl (20000 - clamp h2 0 20000) \<le> fl (20000 - clamp h1 0 20000)" by (rule fl_mono)
  then have "fl (fl (20000 - clamp h2 0 20000) / 200) \<le> fl (fl (20000 - clamp h1 0 20000) / 200)"
    by (intro fl_mono) simp
  then have "fl 0.004 * fl (fl (20000 - clamp h2 0 20000) / 200)
      \<le> fl 0.004 * fl (fl (20000 - clamp h1 0 20000) / 200)"
    using w_alt_nonneg by (intro mult_left_mono) (simp_all add: double_weights_def)
  then show ?thesis
    unfolding s_alt_d_def alt_term_d_def by (simp add: double_weights_def fl_mono)
qed

lemma s_range_d_nonneg: "0 \<le> s_range_d c double_weights"
  unfolding s_range_d_def using inv_range_d_nonneg [of c]
  by (intro fl_nonneg) (simp add: double_weights_def)

lemma s_closing_d_nonneg: "0 \<le> s_closing_d c double_weights"
proof -
  have "0 \<le> closing_norm_d c" by (simp add: closing_norm_d_def clamp_def)
  then have "0 \<le> fl (closing_norm_d c * 100)" by (intro fl_nonneg) simp
  then show ?thesis
    unfolding s_closing_d_def by (intro fl_nonneg) (simp add: double_weights_def)
qed

lemma s_rcs_d_nonneg:
  assumes "\<forall>x. fl 0.01 \<le> x \<longrightarrow> - 2 \<le> lg x"
  shows "0 \<le> s_rcs_d lg c double_weights"
proof -
  have "fl 0.01 \<le> max (fl 0.01) (rcs_m2 c)" by simp
  with assms have "- 2 \<le> rcs_log_d lg c" unfolding rcs_log_d_def by blast
  then have "0 \<le> fl (rcs_log_d lg c + 2)" by (intro fl_nonneg) simp
  then have "0 \<le> fl (fl (rcs_log_d lg c + 2) * 25)" by (intro fl_nonneg) simp
  with w_rcs_nonneg have "0 \<le> w_rcs double_weights * fl (fl (rcs_log_d lg c + 2) * 25)"
    by (rule mult_nonneg_nonneg)
  then show ?thesis unfolding s_rcs_d_def by (rule fl_nonneg)
qed

lemma s_alt_d_nonneg: "0 \<le> s_alt_d c double_weights"
proof -
  have "0 \<le> 20000 - clamp (altitude_m c) 0 20000" by (simp add: clamp_def)
  then have "0 \<le> fl (20000 - clamp (altitude_m c) 0 20000)" by (rule fl_nonneg)
  then have "0 \<le> alt_term_d c" unfolding alt_term_d_def by (intro fl_nonneg) simp
  with w_alt_nonneg have "0 \<le> w_alt_low double_weights * alt_term_d c"
    by (rule mult_nonneg_nonneg)
  then show ?thesis unfolding s_alt_d_def by (rule fl_nonneg)
qed

lemma s_iff_d_lower: "- 40 \<le> s_iff c double_weights"
  by (cases "iff c") (simp_all add: s_iff_def double_weights_def)

lemma score_d_lower:
  assumes "\<forall>x. fl 0.01 \<le> x \<longrightarrow> - 2 \<le> lg x"
  shows "- 40 \<le> score_d lg c double_weights"
proof -
  have "0 \<le> fl (s_range_d c double_weights + s_closing_d c double_weights)"
    using s_range_d_nonneg [of c] s_closing_d_nonneg [of c] by (intro fl_nonneg) simp
  then have "0 \<le> fl (fl (s_range_d c double_weights + s_closing_d c double_weights)
      + s_rcs_d lg c double_weights)"
    using s_rcs_d_nonneg [OF assms, of c] by (intro fl_nonneg) simp
  then have "0 \<le> fl (fl (fl (s_range_d c double_weights + s_closing_d c double_weights)
      + s_rcs_d lg c double_weights) + s_alt_d c double_weights)"
    using s_alt_d_nonneg [of c] by (intro fl_nonneg) simp
  then have "- 40 \<le> fl (fl (fl (s_range_d c double_weights + s_closing_d c double_weights)
      + s_rcs_d lg c double_weights) + s_alt_d c double_weights) + s_iff c double_weights"
    using s_iff_d_lower [of c] by simp
  then have "fl (- 40) \<le> score_d lg c double_weights"
    unfolding score_d_def by (rule fl_mono)
  then show ?thesis by (simp add: fl_m40)
qed

lemma ln10_ge_1: "1 \<le> ln (10::real)"
proof -
  have "exp (1::real) \<le> 3" by (rule exp_le)
  then have "exp (1::real) \<le> 10" by simp
  then have "ln (exp (1::real)) \<le> ln 10" by (subst ln_le_cancel_iff) simp_all
  then show ?thesis by simp
qed

lemma log10_small:
  assumes "0 < d"
  shows "0 < log 10 (1 + d)" and "log 10 (1 + d) \<le> d"
proof -
  from assms show "0 < log 10 (1 + d)" by simp
  have "ln (1 + d) \<le> d" using assms by (intro ln_add_one_self_le_self) simp
  moreover have "0 < ln (1 + d)" using assms by (intro ln_gt_zero) simp
  ultimately have "ln (1 + d) / ln 10 \<le> d / 1"
    using ln10_ge_1 by (intro frac_le) simp_all
  then show "log 10 (1 + d) \<le> d" by (simp add: log_def)
qed

lemma log10_fl_hundredth:
  "- 2 < log 10 (fl (1 / 100))" "log 10 (fl (1 / 100)) \<le> - 2 + 3 / 2 ^ 57"
proof -
  have v: "fl (1 / 100) = (1 / 100) * (1 + 3 / 2 ^ 57)"
    by (simp add: fl_hundredth)
  have "log 10 ((1 / 100) * (1 + 3 / 2 ^ 57)) = log 10 (1 / 100) + log 10 (1 + 3 / 2 ^ 57)"
    by (subst log_mult) simp_all
  moreover have "log 10 (1 / 100) = - 2"
  proof -
    have "log 10 (1 / 100) = log 10 1 - log 10 (10 ^ 2)"
      by (subst log_divide) simp_all
    also have "\<dots> = - 2" by (simp only: log_nat_power) simp
    finally show ?thesis .
  qed
  ultimately have e: "log 10 (fl (1 / 100)) = - 2 + log 10 (1 + 3 / 2 ^ 57)"
    by (simp only: v)
  show "- 2 < log 10 (fl (1 / 100))"
    unfolding e using log10_small(1) [of "3 / 2 ^ 57"] by simp
  show "log 10 (fl (1 / 100)) \<le> - 2 + 3 / 2 ^ 57"
    unfolding e using log10_small(2) [of "3 / 2 ^ 57"] by simp
qed

lemma log10_cr_hundredth: "log10_cr (fl (1 / 100)) = - 2"
proof -
  let ?x = "log 10 (fl (1 / 100))"
  have lo: "- 2 < ?x" and hi: "?x \<le> - 2 + 3 / 2 ^ 57" by (rule log10_fl_hundredth)+
  have "fl ?x = of_int (- (2 ^ 53)) * 2 powi (0 - 52)"
  proof (rule fl_near)
    show "2 powi 0 \<le> \<bar>?x\<bar>" using lo hi by simp
    show "\<bar>?x\<bar> < 2 powi (0 + 1)" using lo hi by simp
    show "- 1022 \<le> (0::int)" by simp
    have "?x / 2 powi (0 - 52) - of_int (- (2 ^ 53)) = (?x + 2) * 2 ^ 52"
      by (simp add: power_int_minus field_simps)
    moreover have "0 < (?x + 2) * 2 ^ 52" using lo by simp
    moreover have "(?x + 2) * 2 ^ 52 \<le> (3 / 2 ^ 57) * 2 ^ 52"
      using hi by (intro mult_right_mono) simp_all
    ultimately show "\<bar>?x / 2 powi (0 - 52) - of_int (- (2 ^ 53))\<bar> < 1 / 2" by simp
  qed
  then show ?thesis by (simp add: log10_cr_def power_int_minus)
qed

lemma log10_cr_mono: "0 < x \<Longrightarrow> x \<le> y \<Longrightarrow> log10_cr x \<le> log10_cr y"
  unfolding log10_cr_def by (intro fl_mono) simp

lemma fl_hundredth_pos: "0 < fl (1 / 100)"
  by (simp add: fl_hundredth)

lemma log10_cr_mono_from: "\<forall>x y. fl 0.01 \<le> x \<and> x \<le> y \<longrightarrow> log10_cr x \<le> log10_cr y"
proof (intro allI impI)
  fix x y :: real
  assume a: "fl 0.01 \<le> x \<and> x \<le> y"
  with fl_hundredth_pos have "0 < x" by simp
  with a show "log10_cr x \<le> log10_cr y" by (simp add: log10_cr_mono)
qed

lemma log10_cr_lower: "\<forall>x. fl 0.01 \<le> x \<longrightarrow> - 2 \<le> log10_cr x"
proof (intro allI impI)
  fix x :: real
  assume a: "fl 0.01 \<le> x"
  then have "log10_cr (fl (1 / 100)) \<le> log10_cr x"
    using fl_hundredth_pos by (intro log10_cr_mono) simp_all
  then show "- 2 \<le> log10_cr x" by (simp add: log10_cr_hundredth)
qed

lemma s_alt_d_tiny:
  "s_alt_d (c\<lparr>altitude_m := 1 / 2 ^ 40\<rparr>) w = s_alt_d (c\<lparr>altitude_m := 0\<rparr>) w"
proof -
  have c1: "clamp (1 / 2 ^ 40) 0 20000 = 1 / 2 ^ 40" by (simp add: clamp_def)
  have c2: "clamp 0 0 20000 = 0" by (simp add: clamp_def)
  have a: "fl (20000 - clamp (1 / 2 ^ 40) 0 20000) = 20000"
    unfolding c1 by (rule fl_alt_tiny)
  have b: "fl (20000 - clamp 0 0 20000) = 20000"
    unfolding c2 using fl_20000 by simp
  have s1: "altitude_m (c\<lparr>altitude_m := 1 / 2 ^ 40\<rparr>) = 1 / 2 ^ 40" by simp
  have s0: "altitude_m (c\<lparr>altitude_m := 0\<rparr>) = 0" by simp
  have "alt_term_d (c\<lparr>altitude_m := 1 / 2 ^ 40\<rparr>) = alt_term_d (c\<lparr>altitude_m := 0\<rparr>)"
    unfolding alt_term_d_def s1 s0 a b ..
  then show ?thesis
    unfolding s_alt_d_def by (rule arg_cong)
qed

lemma fl_1: "fl 1 = 1"
  using fl_pow2 [of 0] by simp

lemma fl_small:
  assumes "0 \<le> x" "x \<le> 1 / 2 ^ 54"
  shows "0 \<le> fl x" "fl x \<le> 1 / 2 ^ 54"
proof -
  show "0 \<le> fl x" using assms(1) by (rule fl_nonneg)
  have "fl x \<le> fl (2 powi (- 54))"
    using assms(2) by (intro fl_mono) (simp add: power_int_minus field_simps)
  also have "\<dots> = 2 powi (- 54)" by (rule fl_pow2) simp
  finally show "fl x \<le> 1 / 2 ^ 54" by (simp add: power_int_minus field_simps)
qed

lemma score_d_Z: "score_d log10_cr contact_Z double_weights = - 40"
proof -
  have f05: "fl 0.05 \<le> 1"
    using fl_mono [of "0.05" 1] by (simp add: fl_1)
  then have inv: "inv_range_d contact_Z = fl (1 / 100000000000000000000)"
    by (simp add: inv_range_d_def contact_Z_def)
  have p: "0 \<le> fl (1 / 100000000000000000000)" "fl (1 / 100000000000000000000) \<le> 1 / 2 ^ 60"
  proof -
    show "0 \<le> fl (1 / 100000000000000000000)" by (rule fl_nonneg) simp
    have "fl (1 / 100000000000000000000) \<le> fl (2 powi (- 60))"
      by (intro fl_mono) (simp add: power_int_minus field_simps)
    also have "\<dots> = 2 powi (- 60)" by (rule fl_pow2) simp
    finally show "fl (1 / 100000000000000000000) \<le> 1 / 2 ^ 60"
      by (simp add: power_int_minus field_simps)
  qed
  define q where "q = s_range_d contact_Z double_weights"
  have q: "0 \<le> q" "q \<le> 1 / 2 ^ 54"
  proof -
    have "60 * fl (1 / 100000000000000000000) \<le> 1 / 2 ^ 54" using p(2) by simp
    moreover have "0 \<le> 60 * fl (1 / 100000000000000000000)" using p(1) by simp
    ultimately show "0 \<le> q" "q \<le> 1 / 2 ^ 54"
      unfolding q_def s_range_d_def inv
      using fl_small [of "60 * fl (1 / 100000000000000000000)"]
      by (simp_all add: double_weights_def)
  qed
  have cl: "s_closing_d contact_Z double_weights = 0"
    by (simp add: s_closing_d_def closing_norm_d_def clamp_def contact_Z_def)
  have rc: "s_rcs_d log10_cr contact_Z double_weights = 0"
  proof -
    have "max (fl (1 / 100)) 0 = fl (1 / 100)" using fl_hundredth_pos by simp
    then show ?thesis
      by (simp add: s_rcs_d_def rcs_log_d_def contact_Z_def log10_cr_hundredth)
  qed
  have al: "s_alt_d contact_Z double_weights = 0"
    by (simp add: s_alt_d_def alt_term_d_def clamp_def contact_Z_def)
  have fr: "s_iff contact_Z double_weights = - 40"
    by (simp add: s_iff_def contact_Z_def double_weights_def)
  have t1: "0 \<le> fl q" "fl q \<le> 1 / 2 ^ 54" using fl_small [OF q] by simp_all
  have t2: "0 \<le> fl (fl q)" "fl (fl q) \<le> 1 / 2 ^ 54" using fl_small [OF t1] by simp_all
  have t3: "0 \<le> fl (fl (fl q))" "fl (fl (fl q)) \<le> 1 / 2 ^ 54" using fl_small [OF t2] by simp_all
  have s: "score_d log10_cr contact_Z double_weights = fl (fl (fl (fl q)) + - 40)"
    by (simp add: score_d_def cl rc al fr q_def)
  have "fl (- 40) \<le> fl (fl (fl (fl q)) + - 40)" using t3(1) by (intro fl_mono) simp
  moreover have "fl (fl (fl (fl q)) + - 40) \<le> fl (- 40 + 1 / 2 ^ 54)"
    using t3(2) by (intro fl_mono) simp
  ultimately show ?thesis unfolding s fl_m40 fl_m40_tiny by linarith
qed

section \<open>The claims\<close>

text \<open>
  Claim C1 (header detection). Blank lines and comment lines leave the state of the
  loop as it is. The first other line clears the flag \<open>maybeHeader\<close>, so the header test
  runs once. That line is dropped as a header, with no diagnostic and no contact, when
  it has at least six columns and its classification column does not parse, or its
  range column is \<^verbatim>\<open>range_km\<close>, or its closing-speed column is \<^verbatim>\<open>closing_mps\<close>. With
  fewer than six columns the line is not a header: it is dropped as a malformed row and
  the diagnostic \<^verbatim>\<open>Skipping malformed row\<close> is written. In every other case the line
  is parsed as a row. Once the flag is clear, every later line goes to the parsing of
  rows without a header test, and the flag stays clear.
\<close>

theorem header_detection:
  "(trim raw = [] \<or> hd (trim raw) = CHR ''#'' \<longrightarrow> loadCSV_body stod st raw = st)
   \<and> (trim raw \<noteq> [] \<and> hd (trim raw) \<noteq> CHR ''#'' \<longrightarrow>
        \<not> maybeHeader (loadCSV_body stod st raw)
      \<and> (maybeHeader st \<and> 6 \<le> length (split_cols (trim raw))
           \<and> (parseIFF (split_cols (trim raw) ! 1) = None
               \<or> split_cols (trim raw) ! 2 = ''range_km''
               \<or> split_cols (trim raw) ! 3 = ''closing_mps'') \<longrightarrow>
          loadCSV_body stod st raw = st\<lparr>maybeHeader := False\<rparr>)
      \<and> (length (split_cols (trim raw)) < 6 \<longrightarrow>
          loadCSV_body stod st raw =
            st\<lparr>maybeHeader := False,
               cerr := cerr st @ [''Skipping malformed row: '' @ trim raw]\<rparr>)
      \<and> (maybeHeader st
           \<and> \<not> (6 \<le> length (split_cols (trim raw)) \<and> looksHeader (split_cols (trim raw))) \<longrightarrow>
          loadCSV_body stod st raw =
            parse_row stod (st\<lparr>maybeHeader := False\<rparr>) (trim raw) (split_cols (trim raw))))
   \<and> (\<not> maybeHeader st \<longrightarrow>
        loadCSV_body stod st raw =
          (if trim raw = [] \<or> hd (trim raw) = CHR ''#'' then st
           else parse_row stod st (trim raw) (split_cols (trim raw)))
        \<and> \<not> maybeHeader (foldl (loadCSV_body stod) st raws))"
proof (intro conjI impI)
  assume "trim raw = [] \<or> hd (trim raw) = CHR ''#''"
  then show "loadCSV_body stod st raw = st" by (rule body_skip)
next
  assume "trim raw \<noteq> [] \<and> hd (trim raw) \<noteq> CHR ''#''"
  then show "\<not> maybeHeader (loadCSV_body stod st raw)" by (simp add: body_clears)
next
  assume "trim raw \<noteq> [] \<and> hd (trim raw) \<noteq> CHR ''#''"
    and "maybeHeader st \<and> 6 \<le> length (split_cols (trim raw))
           \<and> (parseIFF (split_cols (trim raw) ! 1) = None
               \<or> split_cols (trim raw) ! 2 = ''range_km''
               \<or> split_cols (trim raw) ! 3 = ''closing_mps'')"
  then show "loadCSV_body stod st raw = st\<lparr>maybeHeader := False\<rparr>"
    by (simp add: loadCSV_body_def Let_def looksHeader_def)
next
  assume "trim raw \<noteq> [] \<and> hd (trim raw) \<noteq> CHR ''#''"
    and "length (split_cols (trim raw)) < 6"
  then show "loadCSV_body stod st raw =
      st\<lparr>maybeHeader := False, cerr := cerr st @ [''Skipping malformed row: '' @ trim raw]\<rparr>"
    by (cases "maybeHeader st") (simp_all add: loadCSV_body_def Let_def parse_row_def)
next
  assume "trim raw \<noteq> [] \<and> hd (trim raw) \<noteq> CHR ''#''"
    and "maybeHeader st
           \<and> \<not> (6 \<le> length (split_cols (trim raw)) \<and> looksHeader (split_cols (trim raw)))"
  then show "loadCSV_body stod st raw =
      parse_row stod (st\<lparr>maybeHeader := False\<rparr>) (trim raw) (split_cols (trim raw))"
    by (auto simp: loadCSV_body_def Let_def)
next
  assume "\<not> maybeHeader st"
  then show "loadCSV_body stod st raw =
      (if trim raw = [] \<or> hd (trim raw) = CHR ''#'' then st
       else parse_row stod st (trim raw) (split_cols (trim raw)))"
    by (rule body_no_header)
next
  assume "\<not> maybeHeader st"
  then show "\<not> maybeHeader (foldl (loadCSV_body stod) st raws)"
    by (rule foldl_stays_clear)
qed

theorem header_detection_witness:
  "loadCSV_body Map.empty loadCSV_init '' # note'' = loadCSV_init
   \<and> loadCSV_body Map.empty loadCSV_init ''id,iff,range_km,closing_mps,altitude_m,rcs_m2''
       = loadCSV_init\<lparr>maybeHeader := False\<rparr>
   \<and> loadCSV_body Map.empty loadCSV_init ''a,b''
       = loadCSV_init\<lparr>maybeHeader := False, cerr := [''Skipping malformed row: a,b'']\<rparr>
   \<and> loadCSV_body Map.empty loadCSV_init ''T1,F,1,2,3,4''
       = loadCSV_init\<lparr>maybeHeader := False,
           out := [\<lparr> id_c = ''T1'', iff = Friend, range_km = 1000000000, closing_mps = 0,
                    altitude_m = 0, rcs_m2 = 1 \<rparr>]\<rparr>
   \<and> loadCSV_body Map.empty (loadCSV_init\<lparr>maybeHeader := False\<rparr>) ''T1,F,range_km,1,2,3''
       = loadCSV_init\<lparr>maybeHeader := False,
           out := [\<lparr> id_c = ''T1'', iff = Friend, range_km = 1000000000, closing_mps = 0,
                    altitude_m = 0, rcs_m2 = 1 \<rparr>]\<rparr>
   \<and> \<not> maybeHeader (foldl (loadCSV_body Map.empty) (loadCSV_init\<lparr>maybeHeader := False\<rparr>)
         [''x,y,range_km,closing_mps,altitude_m,rcs_m2''])"
proof -
  have a: "loadCSV_body Map.empty loadCSV_init '' # note'' = loadCSV_init"
    using header_detection [of "'' # note''" Map.empty loadCSV_init "[]"]
    by (simp add: trim_def is_ws_def)
  have b: "loadCSV_body Map.empty loadCSV_init ''id,iff,range_km,closing_mps,altitude_m,rcs_m2''
       = loadCSV_init\<lparr>maybeHeader := False\<rparr>"
    using header_detection [of "''id,iff,range_km,closing_mps,altitude_m,rcs_m2''" Map.empty
        loadCSV_init "[]"]
    by (simp add: trim_def is_ws_def split_cols_def getline_all_def loadCSV_init_def)
  have c: "loadCSV_body Map.empty loadCSV_init ''a,b''
       = loadCSV_init\<lparr>maybeHeader := False, cerr := [''Skipping malformed row: a,b'']\<rparr>"
    using header_detection [of "''a,b''" Map.empty loadCSV_init "[]"]
    by (simp add: trim_def is_ws_def split_cols_def getline_all_def loadCSV_init_def)
  have d: "loadCSV_body Map.empty loadCSV_init ''T1,F,1,2,3,4''
       = loadCSV_init\<lparr>maybeHeader := False,
           out := [\<lparr> id_c = ''T1'', iff = Friend, range_km = 1000000000, closing_mps = 0,
                    altitude_m = 0, rcs_m2 = 1 \<rparr>]\<rparr>"
    using header_detection [of "''T1,F,1,2,3,4''" Map.empty loadCSV_init "[]"]
    by (simp add: trim_def is_ws_def split_cols_def getline_all_def loadCSV_init_def
        looksHeader_def parseIFF_def toupper_def parse_row_def toDouble_def)
  have e: "loadCSV_body Map.empty (loadCSV_init\<lparr>maybeHeader := False\<rparr>) ''T1,F,range_km,1,2,3''
       = loadCSV_init\<lparr>maybeHeader := False,
           out := [\<lparr> id_c = ''T1'', iff = Friend, range_km = 1000000000, closing_mps = 0,
                    altitude_m = 0, rcs_m2 = 1 \<rparr>]\<rparr>
     \<and> \<not> maybeHeader (foldl (loadCSV_body Map.empty) (loadCSV_init\<lparr>maybeHeader := False\<rparr>)
         [''x,y,range_km,closing_mps,altitude_m,rcs_m2''])"
    using header_detection [of "''T1,F,range_km,1,2,3''" Map.empty
        "loadCSV_init\<lparr>maybeHeader := False\<rparr>" "[''x,y,range_km,closing_mps,altitude_m,rcs_m2'']"]
    by (simp add: trim_def is_ws_def split_cols_def getline_all_def loadCSV_init_def
        parseIFF_def toupper_def parse_row_def toDouble_def)
  from a b c d e show ?thesis by simp
qed

text \<open>
  Claim C1, the reading under which a first line of fewer than six columns is a
  header dropped without a diagnostic: the file whose only line is \<^verbatim>\<open>a,b\<close> is read with
  the flag set, the line has two columns, the loop body does more than clear the flag,
  and the diagnostic of a malformed row is written.
\<close>

theorem header_short_line_counterexample:
  "maybeHeader loadCSV_init
   \<and> length (split_cols (trim ''a,b'')) < 6
   \<and> loadCSV_body Map.empty loadCSV_init ''a,b'' \<noteq> loadCSV_init\<lparr>maybeHeader := False\<rparr>
   \<and> cerr (loadCSV_lines Map.empty ''a,b'') = [''Skipping malformed row: a,b'']"
  by (simp add: ingest_eval)

text \<open>
  Claim C2 (the example row \<^verbatim>\<open>B2,Foe,10,150,500,20\<close>). When the four numbers of the row
  convert as written, the row parses to the contact \<open>contact_B2\<close>; under the default
  weights its score lies between 78.77 and 78.78 (it is \<open>75.765 + 10 * log 10 2\<close>), so
  it is neither above 80 nor above 120, the suggestion is \<^verbatim>\<open>MONITOR\<close>, and a run on
  a file holding this row alone prints that one table line and exits with 0.
\<close>

theorem example_B2:
  assumes "fs (csvPath argv) = Some ''B2,Foe,10,150,500,20''"
    and "stod ''10'' = Some 10" "stod ''150'' = Some 150" "stod ''500'' = Some 500"
    "stod ''20'' = Some 20"
  shows "out (loadCSV_lines stod ''B2,Foe,10,150,500,20'') = [contact_B2]
   \<and> 78.77 < score contact_B2 default_weights
   \<and> score contact_B2 default_weights < 78.78
   \<and> \<not> score contact_B2 default_weights > 80
   \<and> \<not> score contact_B2 default_weights > 120
   \<and> suggestion contact_B2 (score contact_B2 default_weights) = ''MONITOR''
   \<and> main fs stod argv =
       \<lparr> exit_code = 0,
         stdout = Some [(1, contact_B2, score contact_B2 default_weights, ''MONITOR'')],
         stderr = [] \<rparr>"
proof -
  have l: "loadCSV_lines stod ''B2,Foe,10,150,500,20'' =
      \<lparr> out = [contact_B2], maybeHeader = False, cerr = [] \<rparr>"
    using assms(2-5) by (rule lines_B2)
  have m: "main fs stod argv =
       \<lparr> exit_code = 0,
         stdout = Some [(1, contact_B2, score contact_B2 default_weights, ''MONITOR'')],
         stderr = [] \<rparr>"
    using assms(1) by (simp add: main_def loadCSV_def l std_sort_def printTable_def suggestion_B2)
  from score_B2_bounds l m show ?thesis
    by (simp add: suggestion_B2)
qed

theorem example_B2_witness:
  "main (\<lambda>p. if p = ''data/contacts.csv'' then Some ''B2,Foe,10,150,500,20'' else None)
        (\<lambda>s. if s = ''10'' then Some 10 else if s = ''150'' then Some 150
              else if s = ''500'' then Some 500 else if s = ''20'' then Some 20 else None)
        [''sentinel'']
     = \<lparr> exit_code = 0,
         stdout = Some [(1, contact_B2, score contact_B2 default_weights, ''MONITOR'')],
         stderr = [] \<rparr>
   \<and> 78.77 < score contact_B2 default_weights
   \<and> score contact_B2 default_weights < 78.78"
  using example_B2 [of "\<lambda>p. if p = ''data/contacts.csv'' then Some ''B2,Foe,10,150,500,20'' else None"
      "[''sentinel'']"
      "\<lambda>s. if s = ''10'' then Some 10 else if s = ''150'' then Some 150
              else if s = ''500'' then Some 500 else if s = ''20'' then Some 20 else None"]
  by (simp add: csvPath_def)

text \<open>
  Claim C3 (Friend dominance). For every contact whose classification is Friend the
  suggestion is \<^verbatim>\<open>IGNORE (FRIEND)\<close>, whatever the score, the range and the closing speed
  are: the Friend test is the first branch of \<open>suggestion\<close>.
\<close>

theorem suggestion_friend:
  "iff c = Friend \<Longrightarrow> suggestion c riskScore = ''IGNORE (FRIEND)''"
  by (simp add: suggestion_def)

theorem suggestion_friend_witness:
  "iff \<lparr> id_c = ''A1'', iff = Friend, range_km = 10, closing_mps = 500,
         altitude_m = 1000, rcs_m2 = 5 \<rparr> = Friend
   \<and> suggestion \<lparr> id_c = ''A1'', iff = Friend, range_km = 10, closing_mps = 500,
         altitude_m = 1000, rcs_m2 = 5 \<rparr> 1000 = ''IGNORE (FRIEND)''"
  using suggestion_friend [of "\<lparr> id_c = ''A1'', iff = Friend, range_km = 10, closing_mps = 500,
         altitude_m = 1000, rcs_m2 = 5 \<rparr>" 1000]
  by simp

text \<open>
  Claim C4 (ranker postcondition). Sorting the (contact, score) pairs with the
  comparator of \<^verbatim>\<open>main\<close> gives a list in which no pair has a smaller score than a
  pair after it, of the same length as the input and with the same pairs, each as
  often as before: nothing is dropped or duplicated. It holds for every list, so for
  every non-empty one.
\<close>

theorem ranker_sorted:
  "sorted_wrt (\<lambda>a b. snd b \<le> snd a) (std_sort by_score xs)
   \<and> length (std_sort by_score xs) = length xs
   \<and> mset (std_sort by_score xs) = mset xs"
proof -
  have "sorted_wrt (\<lambda>a b. snd b \<le> snd a) (std_sort by_score xs)"
    by (induction xs) (simp_all add: std_sort_def sorted_sort_insert)
  moreover have "length (std_sort by_score xs) = length xs"
    using mset_std_sort [of by_score xs] by (metis size_mset)
  ultimately show ?thesis by (simp add: mset_std_sort)
qed

text \<open>
  Claim C5 (monotonicity of the scoring terms, default weights, the other fields
  fixed), in the double arithmetic of the code. A smaller range above 0.05 km never
  gives a smaller inverse-range term; a larger closing speed within 0 and 400 never
  gives a smaller closing-speed term; a larger cross-section within 0.01 and 100 never
  gives a smaller RCS term, provided the logarithm of the library is monotone from the
  double of 0.01 upwards; a lower altitude within 0 and 20000 never gives a smaller
  altitude term. The inequalities are not strict.
\<close>

theorem score_terms_weakly_monotone:
  assumes "\<forall>x y. fl 0.01 \<le> x \<and> x \<le> y \<longrightarrow> lg x \<le> lg y"
  shows "(0.05 < r1 \<and> r1 \<le> r2 \<longrightarrow>
      s_range_d (c\<lparr>range_km := r2\<rparr>) double_weights
        \<le> s_range_d (c\<lparr>range_km := r1\<rparr>) double_weights)
   \<and> (0 \<le> v1 \<and> v1 \<le> v2 \<and> v2 \<le> 400 \<longrightarrow>
      s_closing_d (c\<lparr>closing_mps := v1\<rparr>) double_weights
        \<le> s_closing_d (c\<lparr>closing_mps := v2\<rparr>) double_weights)
   \<and> (0.01 \<le> a1 \<and> a1 \<le> a2 \<and> a2 \<le> 100 \<longrightarrow>
      s_rcs_d lg (c\<lparr>rcs_m2 := a1\<rparr>) double_weights
        \<le> s_rcs_d lg (c\<lparr>rcs_m2 := a2\<rparr>) double_weights)
   \<and> (0 \<le> h1 \<and> h1 \<le> h2 \<and> h2 \<le> 20000 \<longrightarrow>
      s_alt_d (c\<lparr>altitude_m := h2\<rparr>) double_weights
        \<le> s_alt_d (c\<lparr>altitude_m := h1\<rparr>) double_weights)"
proof (intro conjI impI)
  assume "0.05 < r1 \<and> r1 \<le> r2"
  then show "s_range_d (c\<lparr>range_km := r2\<rparr>) double_weights
      \<le> s_range_d (c\<lparr>range_km := r1\<rparr>) double_weights"
    by (simp add: s_range_d_antimono)
next
  assume "0 \<le> v1 \<and> v1 \<le> v2 \<and> v2 \<le> 400"
  then show "s_closing_d (c\<lparr>closing_mps := v1\<rparr>) double_weights
      \<le> s_closing_d (c\<lparr>closing_mps := v2\<rparr>) double_weights"
    by (simp add: s_closing_d_mono)
next
  assume "0.01 \<le> a1 \<and> a1 \<le> a2 \<and> a2 \<le> 100"
  then have "a1 \<le> a2" by simp
  with assms show "s_rcs_d lg (c\<lparr>rcs_m2 := a1\<rparr>) double_weights
      \<le> s_rcs_d lg (c\<lparr>rcs_m2 := a2\<rparr>) double_weights"
    by (rule s_rcs_d_mono)
next
  assume "0 \<le> h1 \<and> h1 \<le> h2 \<and> h2 \<le> 20000"
  then show "s_alt_d (c\<lparr>altitude_m := h2\<rparr>) double_weights
      \<le> s_alt_d (c\<lparr>altitude_m := h1\<rparr>) double_weights"
    by (simp add: s_alt_d_antimono)
qed

theorem score_terms_weakly_monotone_witness:
  "((0.05::real) < 1 \<and> (1::real) \<le> 2)
   \<and> s_range_d (contact_B2\<lparr>range_km := 2\<rparr>) double_weights
       \<le> s_range_d (contact_B2\<lparr>range_km := 1\<rparr>) double_weights
   \<and> ((0::real) \<le> 100 \<and> (100::real) \<le> 200 \<and> (200::real) \<le> 400)
   \<and> s_closing_d (contact_B2\<lparr>closing_mps := 100\<rparr>) double_weights
       \<le> s_closing_d (contact_B2\<lparr>closing_mps := 200\<rparr>) double_weights
   \<and> ((0.01::real) \<le> 1 \<and> (1::real) \<le> 10 \<and> (10::real) \<le> 100)
   \<and> s_rcs_d log10_cr (contact_B2\<lparr>rcs_m2 := 1\<rparr>) double_weights
       \<le> s_rcs_d log10_cr (contact_B2\<lparr>rcs_m2 := 10\<rparr>) double_weights
   \<and> ((0::real) \<le> 1000 \<and> (1000::real) \<le> 2000 \<and> (2000::real) \<le> 20000)
   \<and> s_alt_d (contact_B2\<lparr>altitude_m := 2000\<rparr>) double_weights
       \<le> s_alt_d (contact_B2\<lparr>altitude_m := 1000\<rparr>) double_weights"
  using score_terms_weakly_monotone [OF log10_cr_mono_from, where ?r1.0 = 1 and ?r2.0 = 2
      and ?v1.0 = 100 and ?v2.0 = 200 and ?a1.0 = 1 and ?a2.0 = 10 and ?h1.0 = 1000
      and ?h2.0 = 2000 and c = contact_B2]
  by simp

text \<open>
  Claim C5, the strict reading: the altitudes 0 and \<open>1 / 2 ^ 40\<close> are both doubles
  within 0 and 20000, and the altitude term is the same for both, since
  \<open>20000 - 1 / 2 ^ 40\<close> rounds to 20000. So a lower altitude does not always give a
  strictly larger altitude term.
\<close>

theorem altitude_term_not_strict_counterexample:
  "(0::real) \<le> 0 \<and> (0::real) < 1 / 2 ^ 40 \<and> (1::real) / 2 ^ 40 \<le> 20000
   \<and> s_alt_d (contact_B2\<lparr>altitude_m := 1 / 2 ^ 40\<rparr>) double_weights
       = s_alt_d (contact_B2\<lparr>altitude_m := 0\<rparr>) double_weights
   \<and> \<not> s_alt_d (contact_B2\<lparr>altitude_m := 1 / 2 ^ 40\<rparr>) double_weights
       < s_alt_d (contact_B2\<lparr>altitude_m := 0\<rparr>) double_weights"
  using s_alt_d_tiny [of contact_B2 double_weights] by simp

text \<open>
  Claim C6 (numeric fallback, field by field). A row is a line that is neither blank
  nor a comment and that the header test does not take as the header. A row with at
  least six columns and a recognised classification is kept, with no diagnostic: the
  contact is appended, and each of its four numbers is the converted column, or the
  default of the field where the conversion fails (range 1e9, closing speed 0,
  altitude 0, cross-section 1). Moreover, for a whole file, which rows are kept (their
  identifiers and classifications, in order) is the same for any two conversion
  functions: no row is dropped because a number failed to convert.
\<close>

theorem numeric_fallback:
  assumes "trim raw \<noteq> []" "hd (trim raw) \<noteq> CHR ''#''"
    and "6 \<le> length (split_cols (trim raw))"
    and "parseIFF (split_cols (trim raw) ! 1) = Some k"
    and "\<not> (maybeHeader st \<and> looksHeader (split_cols (trim raw)))"
  shows "out (loadCSV_body stod st raw) =
     out st @
       [\<lparr> id_c = split_cols (trim raw) ! 0, iff = k,
          range_km =
            (case stod (split_cols (trim raw) ! 2) of Some v \<Rightarrow> v | None \<Rightarrow> 1000000000),
          closing_mps = (case stod (split_cols (trim raw) ! 3) of Some v \<Rightarrow> v | None \<Rightarrow> 0),
          altitude_m = (case stod (split_cols (trim raw) ! 4) of Some v \<Rightarrow> v | None \<Rightarrow> 0),
          rcs_m2 = (case stod (split_cols (trim raw) ! 5) of Some v \<Rightarrow> v | None \<Rightarrow> 1) \<rparr>]
     \<and> cerr (loadCSV_body stod st raw) = cerr st
     \<and> map (\<lambda>c. (id_c c, iff c)) (out (loadCSV_lines stod content))
         = map (\<lambda>c. (id_c c, iff c)) (out (loadCSV_lines stod' content))"
  using same_rows_lines [of stod content stod']
  by (simp add: body_row_kept [OF assms] toDouble_def same_rows_def)

theorem numeric_fallback_witness:
  "out (loadCSV_body Map.empty loadCSV_init ''T1, hostile ,x,,-,1e'') =
     [\<lparr> id_c = ''T1'', iff = Foe, range_km = 1000000000, closing_mps = 0, altitude_m = 0,
        rcs_m2 = 1 \<rparr>]
   \<and> cerr (loadCSV_body Map.empty loadCSV_init ''T1, hostile ,x,,-,1e'') = []"
  using numeric_fallback [of "''T1, hostile ,x,,-,1e''" Foe loadCSV_init Map.empty "[]" Map.empty]
  by (simp add: trim_def is_ws_def split_cols_def getline_all_def loadCSV_init_def parseIFF_def
      toupper_def looksHeader_def)

text \<open>
  Claim C7 (exit codes). When the file cannot be opened the run ends with code 2, no
  table, and the line \<^verbatim>\<open>ERROR: Failed to open CSV: <path>\<close> on standard error; this
  is the only exception raised in the program. When the file is read and no contact
  is loaded the run ends with code 1 and no table, the line \<^verbatim>\<open>No contacts loaded from
  <path>\<close> following the diagnostics of the loader. When at least one contact is loaded
  the run ends with code 0 and prints a table with one line per contact.
\<close>

theorem exit_codes:
  "(fs (csvPath argv) = None \<longrightarrow>
      main fs stod argv =
        \<lparr> exit_code = 2, stdout = None,
          stderr = [''ERROR: Failed to open CSV: '' @ csvPath argv] \<rparr>)
   \<and> (fs (csvPath argv) = Some content \<and> out (loadCSV_lines stod content) = [] \<longrightarrow>
      main fs stod argv =
        \<lparr> exit_code = 1, stdout = None,
          stderr = cerr (loadCSV_lines stod content)
                   @ [''No contacts loaded from '' @ csvPath argv] \<rparr>)
   \<and> (fs (csvPath argv) = Some content \<and> out (loadCSV_lines stod content) \<noteq> [] \<longrightarrow>
      exit_code (main fs stod argv) = 0
      \<and> (\<exists>t. stdout (main fs stod argv) = Some t
              \<and> length t = length (out (loadCSV_lines stod content)))
      \<and> stderr (main fs stod argv) = cerr (loadCSV_lines stod content))"
proof (intro conjI impI)
  assume "fs (csvPath argv) = None"
  then show "main fs stod argv =
        \<lparr> exit_code = 2, stdout = None,
          stderr = [''ERROR: Failed to open CSV: '' @ csvPath argv] \<rparr>"
    by (simp add: main_def loadCSV_def)
next
  assume "fs (csvPath argv) = Some content \<and> out (loadCSV_lines stod content) = []"
  then show "main fs stod argv =
        \<lparr> exit_code = 1, stdout = None,
          stderr = cerr (loadCSV_lines stod content)
                   @ [''No contacts loaded from '' @ csvPath argv] \<rparr>"
    by (simp add: main_def loadCSV_def)
next
  assume a: "fs (csvPath argv) = Some content \<and> out (loadCSV_lines stod content) \<noteq> []"
  then have m: "main fs stod argv =
      \<lparr> exit_code = 0,
        stdout = Some (printTable (std_sort by_score
          (map (\<lambda>c. (c, score c default_weights)) (out (loadCSV_lines stod content))))),
        stderr = cerr (loadCSV_lines stod content) \<rparr>"
    by (simp add: main_def loadCSV_def Let_def)
  show "exit_code (main fs stod argv) = 0" by (simp add: m)
  show "\<exists>t. stdout (main fs stod argv) = Some t
              \<and> length t = length (out (loadCSV_lines stod content))"
    by (simp add: m length_printTable length_std_sort)
  show "stderr (main fs stod argv) = cerr (loadCSV_lines stod content)" by (simp add: m)
qed

theorem exit_codes_witness:
  "main (\<lambda>p. if p = ''data/contacts.csv'' then Some ''# empty'' else None) Map.empty
        [''sentinel'', ''missing.csv'']
     = \<lparr> exit_code = 2, stdout = None,
         stderr = [''ERROR: Failed to open CSV: missing.csv''] \<rparr>
   \<and> main (\<lambda>p. if p = ''data/contacts.csv'' then Some ''# empty'' else None) Map.empty
        [''sentinel'']
     = \<lparr> exit_code = 1, stdout = None,
         stderr = [''No contacts loaded from data/contacts.csv''] \<rparr>
   \<and> exit_code (main (\<lambda>p. Some ''T1,U,x,y,z,w'') Map.empty [''sentinel'', ''in.csv'']) = 0"
proof -
  let ?fs = "\<lambda>p. if p = ''data/contacts.csv'' then Some ''# empty'' else None"
  have a: "main ?fs Map.empty [''sentinel'', ''missing.csv'']
     = \<lparr> exit_code = 2, stdout = None,
         stderr = [''ERROR: Failed to open CSV: missing.csv''] \<rparr>"
    using exit_codes [of ?fs "[''sentinel'', ''missing.csv'']" Map.empty "[]"]
    by (simp add: csvPath_def)
  have b: "main ?fs Map.empty [''sentinel'']
     = \<lparr> exit_code = 1, stdout = None,
         stderr = [''No contacts loaded from data/contacts.csv''] \<rparr>"
    using exit_codes [of ?fs "[''sentinel'']" Map.empty "''# empty''"]
    by (simp add: csvPath_def ingest_eval)
  have c: "exit_code (main (\<lambda>p. Some ''T1,U,x,y,z,w'') Map.empty [''sentinel'', ''in.csv'']) = 0"
    using exit_codes [of "\<lambda>p. Some ''T1,U,x,y,z,w''" "[''sentinel'', ''in.csv'']" Map.empty
        "''T1,U,x,y,z,w''"]
    by (simp add: ingest_eval)
  from a b c show ?thesis by simp
qed

text \<open>
  Claim C8 (the classification token). The token is compared after every letter is
  put in upper case, so the letter case of the token does not matter: \<^verbatim>\<open>FRIEND\<close> and
  \<^verbatim>\<open>F\<close> give Friend, \<^verbatim>\<open>FOE\<close>, \<^verbatim>\<open>HOSTILE\<close> and \<^verbatim>\<open>H\<close> give Foe, \<^verbatim>\<open>UNKNOWN\<close> and \<^verbatim>\<open>U\<close> give
  Unknown, and every other token gives nothing. A data row (a line that is neither
  blank nor a comment, read after the header test is over) of at least six columns
  whose token gives nothing is dropped: no contact is added and the diagnostic
  \<^verbatim>\<open>Skipping row with invalid IFF\<close> is written. No classification is made up: every
  contact that the loader returns has the classification that the token of one of the
  lines of the file parses to.
\<close>

theorem classification_parsing:
  "parseIFF tok =
     (if map toupper tok \<in> {''FRIEND'', ''F''} then Some Friend
      else if map toupper tok \<in> {''FOE'', ''HOSTILE'', ''H''} then Some Foe
      else if map toupper tok \<in> {''UNKNOWN'', ''U''} then Some Unknown
      else None)
   \<and> parseIFF (map toupper tok) = parseIFF tok
   \<and> (trim raw \<noteq> [] \<and> hd (trim raw) \<noteq> CHR ''#'' \<and> \<not> maybeHeader st
        \<and> 6 \<le> length (split_cols (trim raw))
        \<and> parseIFF (split_cols (trim raw) ! 1) = None \<longrightarrow>
      loadCSV_body stod st raw =
        st\<lparr>cerr := cerr st @ [''Skipping row with invalid IFF: '' @ trim raw]\<rparr>)
   \<and> (c \<in> set (out (loadCSV_lines stod content)) \<longrightarrow>
        (\<exists>raw \<in> set (getline_all CHR 0x0A content).
           6 \<le> length (split_cols (trim raw))
           \<and> parseIFF (split_cols (trim raw) ! 1) = Some (iff c)
           \<and> id_c c = split_cols (trim raw) ! 0))"
proof (intro conjI impI)
  show "parseIFF tok =
     (if map toupper tok \<in> {''FRIEND'', ''F''} then Some Friend
      else if map toupper tok \<in> {''FOE'', ''HOSTILE'', ''H''} then Some Foe
      else if map toupper tok \<in> {''UNKNOWN'', ''U''} then Some Unknown
      else None)"
    by (rule parseIFF_cases)
  show "parseIFF (map toupper tok) = parseIFF tok"
    by (rule parseIFF_upper) (simp add: toupper_idem)
next
  assume "trim raw \<noteq> [] \<and> hd (trim raw) \<noteq> CHR ''#'' \<and> \<not> maybeHeader st
        \<and> 6 \<le> length (split_cols (trim raw))
        \<and> parseIFF (split_cols (trim raw) ! 1) = None"
  then show "loadCSV_body stod st raw =
        st\<lparr>cerr := cerr st @ [''Skipping row with invalid IFF: '' @ trim raw]\<rparr>"
    by (simp add: loadCSV_body_def Let_def parse_row_def)
next
  assume "c \<in> set (out (loadCSV_lines stod content))"
  then show "\<exists>raw \<in> set (getline_all CHR 0x0A content).
           6 \<le> length (split_cols (trim raw))
           \<and> parseIFF (split_cols (trim raw) ! 1) = Some (iff c)
           \<and> id_c c = split_cols (trim raw) ! 0"
    using out_lines [of c stod content] by (simp add: from_lines_def)
qed

theorem classification_parsing_witness:
  "parseIFF ''Hostile'' = Some Foe
   \<and> parseIFF (map toupper ''Hostile'') = parseIFF ''Hostile''
   \<and> loadCSV_body Map.empty (loadCSV_init\<lparr>maybeHeader := False\<rparr>) ''T2,xyz,1,2,3,4''
       = loadCSV_init\<lparr>maybeHeader := False,
           cerr := [''Skipping row with invalid IFF: T2,xyz,1,2,3,4'']\<rparr>
   \<and> (\<exists>raw \<in> set (getline_all CHR 0x0A ''T1,u,1,2,3,4'').
         6 \<le> length (split_cols (trim raw))
         \<and> parseIFF (split_cols (trim raw) ! 1) = Some Unknown
         \<and> ''T1'' = split_cols (trim raw) ! 0)"
proof -
  let ?c = "\<lparr> id_c = ''T1'', iff = Unknown, range_km = 1000000000, closing_mps = 0,
              altitude_m = 0, rcs_m2 = 1 \<rparr>"
  have a: "parseIFF ''Hostile'' = Some Foe
      \<and> parseIFF (map toupper ''Hostile'') = parseIFF ''Hostile''"
    using classification_parsing [where tok = "''Hostile''" and raw = "[]" and st = loadCSV_init
        and stod = Map.empty and c = ?c and content = "[]"]
    by (simp add: toupper_def)
  have b: "loadCSV_body Map.empty (loadCSV_init\<lparr>maybeHeader := False\<rparr>) ''T2,xyz,1,2,3,4''
       = loadCSV_init\<lparr>maybeHeader := False,
           cerr := [''Skipping row with invalid IFF: T2,xyz,1,2,3,4'']\<rparr>"
    using classification_parsing [where tok = "[]" and raw = "''T2,xyz,1,2,3,4''"
        and st = "loadCSV_init\<lparr>maybeHeader := False\<rparr>" and stod = Map.empty and c = ?c
        and content = "[]"]
    by (simp add: trim_def is_ws_def split_cols_def getline_all_def parseIFF_def toupper_def
        loadCSV_init_def)
  have o: "?c \<in> set (out (loadCSV_lines Map.empty ''T1,u,1,2,3,4''))"
    by (simp add: ingest_eval)
  have c: "\<exists>raw \<in> set (getline_all CHR 0x0A ''T1,u,1,2,3,4'').
         6 \<le> length (split_cols (trim raw))
         \<and> parseIFF (split_cols (trim raw) ! 1) = Some Unknown
         \<and> ''T1'' = split_cols (trim raw) ! 0"
    using classification_parsing [where tok = "[]" and raw = "[]" and st = loadCSV_init
        and stod = Map.empty and c = ?c and content = "''T1,u,1,2,3,4''"] o
    by simp
  from a b c show ?thesis by simp
qed

text \<open>
  Claim C9 (the guarded operations of scoring). For every contact and every weights
  the scoring function has a value and reaches neither a division by zero nor a
  logarithm of a number that is not positive: the checked computation returns the
  score. The division \<open>1 / range_km\<close> is taken only when the range is above 0.05, and
  the inverse-range factor is 20 otherwise, so that it is never above 20; the argument
  of the logarithm is at least 0.01.
\<close>

theorem score_total:
  "score_checked c w = Some (score c w)
   \<and> (if range_km c > 0.05 then inv_range c = 1 / range_km c \<and> range_km c \<noteq> 0
       else inv_range c = 20)
   \<and> inv_range c \<le> 20
   \<and> 0.01 \<le> max 0.01 (rcs_m2 c)
   \<and> checked_log10 (max 0.01 (rcs_m2 c)) = Some (rcs_log c)"
proof -
  have lg: "checked_log10 (max 0.01 (rcs_m2 c)) = Some (rcs_log c)"
    by (simp add: checked_log10_def rcs_log_def max_def)
  have dv: "(if range_km c > 0.05 then checked_div 1 (range_km c) else Some 20)
      = Some (inv_range c)"
    by (simp add: checked_div_def inv_range_def)
  have "score_checked c w = Some (score c w)"
    unfolding score_checked_def lg dv
    by (simp add: checked_div_def score_def s_range_def s_closing_def closing_norm_def
        s_rcs_def s_alt_def alt_term_def)
  with lg inv_range_le [of c] show ?thesis
    by (simp add: inv_range_def)
qed

text \<open>
  Claim C10 (lower bound of the score, default weights), in the double arithmetic of
  the code. For every contact the inverse-range, closing-speed and altitude terms are
  not negative; the RCS term is not negative provided the logarithm of the library
  gives at least -2 from the double of 0.01 upwards; the classification term is at
  least -40, the value it has for a Friend; so the score is at least -40.
\<close>

theorem score_lower_bound_rounded:
  assumes "\<forall>x. fl 0.01 \<le> x \<longrightarrow> - 2 \<le> lg x"
  shows "0 \<le> s_range_d c double_weights
   \<and> 0 \<le> s_closing_d c double_weights
   \<and> 0 \<le> s_rcs_d lg c double_weights
   \<and> 0 \<le> s_alt_d c double_weights
   \<and> - 40 \<le> s_iff c double_weights
   \<and> s_iff (c\<lparr>iff := Friend\<rparr>) double_weights = - 40
   \<and> - 40 \<le> score_d lg c double_weights"
proof -
  have fr: "s_iff (c\<lparr>iff := Friend\<rparr>) double_weights = - 40"
    by (simp add: s_iff_def double_weights_def)
  from s_range_d_nonneg [of c] s_closing_d_nonneg [of c] s_rcs_d_nonneg [OF assms, of c]
    s_alt_d_nonneg [of c] s_iff_d_lower [of c] fr score_d_lower [OF assms, of c]
  show ?thesis by simp
qed

theorem score_lower_bound_rounded_witness:
  "0 \<le> s_range_d contact_B2 double_weights
   \<and> 0 \<le> s_closing_d contact_B2 double_weights
   \<and> 0 \<le> s_rcs_d log10_cr contact_B2 double_weights
   \<and> 0 \<le> s_alt_d contact_B2 double_weights
   \<and> - 40 \<le> s_iff contact_B2 double_weights
   \<and> - 40 \<le> score_d log10_cr contact_B2 double_weights"
  using score_lower_bound_rounded [OF log10_cr_lower, of contact_B2] by simp

text \<open>
  Claim C10, the strict reading: for the Friend of the row \<^verbatim>\<open>Z,Friend,1e20,0,20000,0\<close>
  the inverse-range term is at most \<open>1 / 2 ^ 54\<close>, the other three terms are
  0, and adding -40 rounds to -40: the score is -40 and not above it.
\<close>

theorem score_minus_40_counterexample:
  "score_d log10_cr contact_Z double_weights = - 40
   \<and> \<not> - 40 < score_d log10_cr contact_Z double_weights"
  by (simp add: score_d_Z)

end
